theory Spec2Isabelle
  imports Complex_Main
begin

section \<open>JavaScript array primitives used by the shape code\<close>

text \<open>
  \<open>Array.prototype.findIndex\<close>: the index of the first element satisfying the
  predicate, or \<open>-1\<close> when there is none. \<open>indexOf\<close> is the instance for strict
  equality, \<open>splice(i, 1)\<close> removes the element at index \<open>i\<close>.
\<close>

fun findIndex :: "('a \<Rightarrow> bool) \<Rightarrow> 'a list \<Rightarrow> int" where
  "findIndex p [] = -1"
| "findIndex p (x # xs) =
     (if p x then 0 else (let i = findIndex p xs in if i = -1 then -1 else i + 1))"

definition indexOf :: "'a list \<Rightarrow> 'a \<Rightarrow> int" where
  "indexOf xs x = findIndex (\<lambda>y. y = x) xs"

definition splice1 :: "int \<Rightarrow> 'a list \<Rightarrow> 'a list" where
  "splice1 i xs = take (nat i) xs @ drop (Suc (nat i)) xs"

text \<open>A value tested for truthiness where the property may be absent.\<close>

fun truthy :: "bool option \<Rightarrow> bool" where
  "truthy None = False"
| "truthy (Some b) = b"

section \<open>Access grants and the session store\<close>

record ShapeAccess =
  edit :: bool
  vision :: bool
  movement :: bool

text \<open>\<open>Partial<ShapeAccess>\<close>: every capability may be left out.\<close>

record PartialAccess =
  p_edit :: "bool option"
  p_vision :: "bool option"
  p_movement :: "bool option"

record ShapeOwner =
  shape :: string
  user :: string
  access :: ShapeAccess

text \<open>\<open>PartialBy<PartialShapeOwner, "shape">\<close>, the argument of \<open>addOwner\<close>.\<close>

record PartialShapeOwner =
  po_shape :: "string option"
  po_user :: string
  po_access :: PartialAccess

text \<open>\<open>PartialBy<ShapeOwner, "shape">\<close>, the argument of \<open>updateOwner\<close>.\<close>

record OwnerUpdate =
  ou_shape :: "string option"
  ou_user :: string
  ou_access :: ShapeAccess

text \<open>
  What leaves the shape towards its collaborators: the socket events (the payload is
  given before its conversion to the wire names), the request to the layer manager,
  and the request to the shape's layer to update the points of the shape with the
  given uuid.
\<close>

datatype out_event =
    ShapeOwnerAdd ShapeOwner
  | ShapeOwnerUpdate ShapeOwner
  | ShapeOwnerDelete ShapeOwner
  | ShapeOwnerDefaultUpdate ShapeAccess string
  | InvalidateLightAllFloors
  | UpdateShapePoints string

text \<open>
  \<open>gameStore\<close> together with the one setting of \<open>gameSettingsStore\<close> the shape reads
  (\<open>fowLos\<close>) and the log of outgoing effects.
\<close>

record gameStore =
  IS_DM :: bool
  FAKE_PLAYER :: bool
  username :: string
  activeTokens :: "string list"
  ownedtokens :: "string list"
  fowLos :: bool
  outbox :: "out_event list"

text \<open>The part of a shape the ownership operations read and write.\<close>

record OwnedShape =
  uuid :: string
  isToken :: bool
  owners :: "ShapeOwner list"
  defaultAccess :: ShapeAccess

record OwnedByOptions =
  editAccess :: "bool option"
  visionAccess :: "bool option"
  movementAccess :: "bool option"

definition emit :: "bool \<Rightarrow> out_event \<Rightarrow> gameStore \<Rightarrow> gameStore" where
  "emit sync ev g = (if sync then g\<lparr>outbox := outbox g @ [ev]\<rparr> else g)"

definition invalidateLight :: "gameStore \<Rightarrow> gameStore" where
  "invalidateLight g =
     (if fowLos g then g\<lparr>outbox := outbox g @ [InvalidateLightAllFloors]\<rparr> else g)"

subsection \<open>ownedBy, hasOwner\<close>

definition ownerMatches :: "string \<Rightarrow> ('a::type) OwnedByOptions_scheme \<Rightarrow> ShapeOwner \<Rightarrow> bool" where
  "ownerMatches un opts u \<longleftrightarrow>
     user u = un \<and>
     (if truthy (editAccess opts) then edit (access u) = True else True) \<and>
     (if truthy (movementAccess opts) then movement (access u) = True else True) \<and>
     (if truthy (visionAccess opts) then vision (access u) = True else True)"

definition ownedBy :: "gameStore \<Rightarrow> ('b::type) OwnedShape_scheme \<Rightarrow> OwnedByOptions \<Rightarrow> bool" where
  "ownedBy g s opts \<longleftrightarrow>
     IS_DM g \<or>
     (FAKE_PLAYER g \<and> uuid s \<in> set (activeTokens g)) \<or>
     (truthy (editAccess opts) \<and> edit (defaultAccess s)) \<or>
     (truthy (movementAccess opts) \<and> movement (defaultAccess s)) \<or>
     (truthy (visionAccess opts) \<and> vision (defaultAccess s)) \<or>
     list_ex (ownerMatches (username g) opts) (owners s)"

definition hasOwner :: "('b::type) OwnedShape_scheme \<Rightarrow> string \<Rightarrow> bool" where
  "hasOwner s un = list_ex (\<lambda>u. user u = un) (owners s)"

subsection \<open>addOwner\<close>

definition forceOnEdit :: "PartialAccess \<Rightarrow> PartialAccess" where
  "forceOnEdit a =
     (if truthy (p_edit a) then a\<lparr>p_movement := Some True, p_vision := Some True\<rparr> else a)"

definition fillAccess :: "PartialAccess \<Rightarrow> ShapeAccess" where
  "fillAccess a =
     \<lparr>edit = (case p_edit a of None \<Rightarrow> False | Some b \<Rightarrow> b),
      vision = (case p_vision a of None \<Rightarrow> False | Some b \<Rightarrow> b),
      movement = (case p_movement a of None \<Rightarrow> False | Some b \<Rightarrow> b)\<rparr>"

definition addOwner ::
  "PartialShapeOwner \<Rightarrow> bool \<Rightarrow> gameStore \<times> ('b::type) OwnedShape_scheme
     \<Rightarrow> gameStore \<times> 'b OwnedShape_scheme" where
  "addOwner owner sync gs =
     (let g = fst gs; s = snd gs;
          acc = forceOnEdit (po_access owner);
          fullOwner = \<lparr>shape = (case po_shape owner of None \<Rightarrow> uuid s | Some i \<Rightarrow> i),
                       user = po_user owner,
                       access = fillAccess acc\<rparr>
      in if shape fullOwner \<noteq> uuid s then (g, s)
         else if \<not> hasOwner s (po_user owner) then
           (let s' = s\<lparr>owners := owners s @ [fullOwner]\<rparr>;
                g1 = (if truthy (p_vision acc) \<and> isToken s \<and> po_user owner = username g
                      then g\<lparr>ownedtokens := ownedtokens g @ [uuid s]\<rparr> else g);
                g2 = emit sync (ShapeOwnerAdd fullOwner) g1
            in (invalidateLight g2, s'))
         else (g, s))"

subsection \<open>updateOwner\<close>

definition someFalse :: "ShapeAccess \<Rightarrow> bool" where
  "someFalse a \<longleftrightarrow> list_ex (\<lambda>v. \<not> v) [edit a, vision a, movement a]"

text \<open>
  The two rules, in the order of the source: the existing grant's \<open>edit\<close> is read, the
  requested access is first completed, then stripped of \<open>edit\<close>.
\<close>

definition applyRules :: "bool \<Rightarrow> ShapeAccess \<Rightarrow> ShapeAccess" where
  "applyRules oldEdit a =
     (let a1 = (if \<not> oldEdit \<and> edit a then a\<lparr>movement := True, vision := True\<rparr> else a);
          a2 = (if oldEdit \<and> someFalse a1 then a1\<lparr>edit := False\<rparr> else a1)
      in a2)"

fun setFirstAccess :: "string \<Rightarrow> ShapeAccess \<Rightarrow> ShapeOwner list \<Rightarrow> ShapeOwner list" where
  "setFirstAccess un a [] = []"
| "setFirstAccess un a (o1 # os) =
     (if user o1 = un then o1\<lparr>access := a\<rparr> # os else o1 # setFirstAccess un a os)"

definition syncOwnedTokens :: "bool \<Rightarrow> string \<Rightarrow> gameStore \<Rightarrow> gameStore" where
  "syncOwnedTokens hasVision sid g =
     (let ownedIndex = indexOf (ownedtokens g) sid
      in if hasVision
         then (if ownedIndex = -1 then g\<lparr>ownedtokens := ownedtokens g @ [sid]\<rparr> else g)
         else (if ownedIndex \<ge> 0 then g\<lparr>ownedtokens := splice1 ownedIndex (ownedtokens g)\<rparr>
               else g))"

definition updateOwner ::
  "OwnerUpdate \<Rightarrow> bool \<Rightarrow> gameStore \<times> ('b::type) OwnedShape_scheme
     \<Rightarrow> gameStore \<times> 'b OwnedShape_scheme" where
  "updateOwner owner sync gs =
     (let g = fst gs; s = snd gs;
          fullShape = (case ou_shape owner of None \<Rightarrow> uuid s | Some i \<Rightarrow> i)
      in if fullShape \<noteq> uuid s then (g, s)
         else if \<not> hasOwner s (ou_user owner) then (g, s)
         else (case find (\<lambda>u. user u = ou_user owner) (owners s) of
             None \<Rightarrow> (g, s)
           | Some targetOwner \<Rightarrow>
              (let acc = applyRules (edit (access targetOwner)) (ou_access owner);
                   fullOwner = \<lparr>shape = fullShape, user = ou_user owner, access = acc\<rparr>;
                   g1 = (if vision (access targetOwner) \<noteq> vision acc
                            \<and> user targetOwner = username g
                         then syncOwnedTokens (vision acc) (uuid s) g else g);
                   s' = s\<lparr>owners := setFirstAccess (ou_user owner) acc (owners s)\<rparr>;
                   g2 = emit sync (ShapeOwnerUpdate fullOwner) g1
               in (invalidateLight g2, s'))))"

subsection \<open>updateDefaultOwner\<close>

definition visionOnly :: OwnedByOptions where
  "visionOnly = \<lparr>editAccess = None, visionAccess = Some True, movementAccess = None\<rparr>"

definition updateDefaultOwner ::
  "ShapeAccess \<Rightarrow> bool \<Rightarrow> gameStore \<times> ('b::type) OwnedShape_scheme
     \<Rightarrow> gameStore \<times> 'b OwnedShape_scheme" where
  "updateDefaultOwner acc0 sync gs =
     (let g = fst gs; s = snd gs;
          acc = applyRules (edit (defaultAccess s)) acc0;
          s' = s\<lparr>defaultAccess := acc\<rparr>;
          ownedIndex = indexOf (ownedtokens g) (uuid s);
          g1 = (if vision (defaultAccess s')
                then (if ownedBy g s' visionOnly \<and> ownedIndex = -1
                      then g\<lparr>ownedtokens := ownedtokens g @ [uuid s]\<rparr> else g)
                else (if \<not> ownedBy g s' visionOnly \<and> ownedIndex \<ge> 0
                      then g\<lparr>ownedtokens := splice1 ownedIndex (ownedtokens g)\<rparr> else g));
          g2 = invalidateLight g1;
          g3 = emit sync (ShapeOwnerDefaultUpdate (defaultAccess s') (uuid s)) g2
      in (g3, s'))"

section \<open>The shape\<close>

typedecl Tracker
typedecl Label

record Aura =
  aura_uuid :: string
  visionSource :: bool
  aura_value :: real
  aura_dim :: real

text \<open>
  A value of the \<open>options\<close> map (\<open>Map<string, any>\<close>). \<open>OArr\<close> is an array of
  strings (the member ids of \<open>groupInfo\<close>), \<open>OList\<close> an array with an element that is
  no string, \<open>OObj\<close> an object with its properties in order, \<open>OOther\<close> a value JSON
  does not carry (a function, a symbol).
\<close>

datatype optval =
    OUndefined
  | ONull
  | OBool bool
  | ONum real
  | OStr string
  | OArr "string list"
  | OList "optval list"
  | OObj "(string \<times> optval) list"
  | OOther

datatype js_error = TypeError | SyntaxError

text \<open>
  The fields of \<open>class Shape\<close>. \<open>s_floor\<close>, \<open>s_layer\<close> and \<open>s_angle\<close> are the private
  \<open>_floor\<close>, \<open>_layer\<close> and \<open>_angle\<close>; \<open>uuid\<close>, \<open>isToken\<close>, \<open>owners\<close> (the private
  \<open>_owners\<close>) and \<open>defaultAccess\<close> are inherited from \<open>OwnedShape\<close>. A JavaScript
  \<open>Map\<close> keeps its entries in insertion order, one per key: a list of pairs.
\<close>

record Shape = OwnedShape +
  shape_type :: string
  s_floor :: string
  s_layer :: string
  preventSync :: bool
  refPoint :: "real \<times> real"
  s_angle :: real
  fillColour :: string
  strokeColour :: string
  strokeWidth :: real
  name :: string
  nameVisible :: bool
  trackers :: "Tracker list"
  auras :: "Aura list"
  labels :: "Label list"
  visionObstruction :: bool
  movementObstruction :: bool
  isInvisible :: bool
  showHighlight :: bool
  annotation :: string
  globalCompositeOperation :: string
  options :: "(string \<times> optval) list"
  badge :: int
  showBadge :: bool
  isLocked :: bool

text \<open>
  The constructor and the field initialisers. \<open>ty\<close> is the subclass's \<open>type\<close>,
  \<open>fresh\<close> the identifier \<open>uuidv4()\<close> would generate. \<open>_floor\<close> and \<open>_layer\<close> are
  declared without an initialiser; they are the empty string here until \<open>setLayer\<close> or
  \<open>fromDict\<close> assigns them.
\<close>

definition newShape ::
  "string \<Rightarrow> real \<times> real \<Rightarrow> string option \<Rightarrow> string option \<Rightarrow> string option \<Rightarrow> string
     \<Rightarrow> Shape" where
  "newShape ty rp fill stroke uid fresh =
     \<lparr>uuid = (case uid of None \<Rightarrow> fresh | Some u \<Rightarrow> if u = [] then fresh else u),
      isToken = False,
      owners = [],
      defaultAccess = \<lparr>edit = False, vision = False, movement = False\<rparr>,
      shape_type = ty,
      s_floor = [],
      s_layer = [],
      preventSync = False,
      refPoint = rp,
      s_angle = 0,
      fillColour = (case fill of None \<Rightarrow> ''#000'' | Some c \<Rightarrow> c),
      strokeColour = (case stroke of None \<Rightarrow> ''rgba(0,0,0,0)'' | Some c \<Rightarrow> c),
      strokeWidth = 5,
      name = ''Unknown shape'',
      nameVisible = True,
      trackers = [],
      auras = [],
      labels = [],
      visionObstruction = False,
      movementObstruction = False,
      isInvisible = False,
      showHighlight = False,
      annotation = [],
      globalCompositeOperation = ''source-over'',
      options = [],
      badge = 1,
      showBadge = False,
      isLocked = False\<rparr>"

definition setLayer :: "string \<Rightarrow> string \<Rightarrow> Shape \<Rightarrow> Shape" where
  "setLayer fl ly s = s\<lparr>s_floor := fl, s_layer := ly\<rparr>"

section \<open>Blocker sets and vision sources\<close>

datatype TriangulationTarget = VISION | MOVEMENT

record VisionSource =
  vs_shape :: string
  vs_aura :: string

text \<open>The requests made to the triangulation (\<open>visibilityStore\<close>), in order.\<close>

datatype triag_event =
    AddToTriag TriangulationTarget string
  | DeleteFromTriag TriangulationTarget string
  | RecalculateVision string
  | RecalculateMovement string

text \<open>
  Per floor: the vision blockers, the movement blockers, the vision sources; and the
  log of triangulation requests.
\<close>

record visibilityStore =
  visionBlockers :: "string \<Rightarrow> string list"
  movementBlockers :: "string \<Rightarrow> string list"
  visionSources :: "string \<Rightarrow> VisionSource list"
  triag :: "triag_event list"

text \<open>
  Modelled from the spec: \<open>getBlockers\<close>, \<open>addBlocker\<close>, \<open>sliceBlockers\<close>,
  \<open>getVisionSources\<close> and \<open>setVisionSources\<close> of \<open>game/visibility/utils\<close> are not
  among the source files. The specification (section 4.3) keeps, per floor, one ordered
  collection of shape ids for vision and one for movement, and a registry of
  (shape id, aura id) pairs: \<open>getBlockers\<close> reads the floor's collection for the target,
  \<open>addBlocker\<close> inserts an id at its end, \<open>sliceBlockers\<close> removes the id at the given
  index, \<open>getVisionSources\<close> and \<open>setVisionSources\<close> read and replace the floor's registry.
\<close>

definition getBlockers :: "TriangulationTarget \<Rightarrow> string \<Rightarrow> visibilityStore \<Rightarrow> string list" where
  "getBlockers target fl st =
     (case target of VISION \<Rightarrow> visionBlockers st fl | MOVEMENT \<Rightarrow> movementBlockers st fl)"

definition setBlockers ::
  "TriangulationTarget \<Rightarrow> string list \<Rightarrow> string \<Rightarrow> visibilityStore \<Rightarrow> visibilityStore" where
  "setBlockers target bs fl st =
     (case target of
        VISION \<Rightarrow> st\<lparr>visionBlockers := (visionBlockers st)(fl := bs)\<rparr>
      | MOVEMENT \<Rightarrow> st\<lparr>movementBlockers := (movementBlockers st)(fl := bs)\<rparr>)"

definition addBlocker ::
  "TriangulationTarget \<Rightarrow> string \<Rightarrow> string \<Rightarrow> visibilityStore \<Rightarrow> visibilityStore" where
  "addBlocker target blocker fl st = setBlockers target (getBlockers target fl st @ [blocker]) fl st"

definition sliceBlockers ::
  "TriangulationTarget \<Rightarrow> int \<Rightarrow> string \<Rightarrow> visibilityStore \<Rightarrow> visibilityStore" where
  "sliceBlockers target index fl st = setBlockers target (splice1 index (getBlockers target fl st)) fl st"

definition getVisionSources :: "string \<Rightarrow> visibilityStore \<Rightarrow> VisionSource list" where
  "getVisionSources fl st = visionSources st fl"

definition setVisionSources :: "VisionSource list \<Rightarrow> string \<Rightarrow> visibilityStore \<Rightarrow> visibilityStore" where
  "setVisionSources vs fl st = st\<lparr>visionSources := (visionSources st)(fl := vs)\<rparr>"

definition request :: "bool \<Rightarrow> triag_event \<Rightarrow> visibilityStore \<Rightarrow> visibilityStore" where
  "request c ev st = (if c then st\<lparr>triag := triag st @ [ev]\<rparr> else st)"

subsection \<open>checkVisionSources\<close>

text \<open>The body of the loop over the shape's auras.\<close>

definition auraStep :: "string \<Rightarrow> VisionSource list \<Rightarrow> Aura \<Rightarrow> VisionSource list" where
  "auraStep sid vs au =
     (let i = findIndex (\<lambda>o1. vs_aura o1 = aura_uuid au) vs
      in if visionSource au \<and> i = -1 then vs @ [\<lparr>vs_shape = sid, vs_aura = aura_uuid au\<rparr>]
         else if \<not> visionSource au \<and> i \<ge> 0 then splice1 i vs
         else vs)"

text \<open>
  The second loop, \<open>for (let i = visionSources.length - 1; i >= 0; i--)\<close>:
  \<open>stillSources s n vs\<close> runs it from index \<open>n - 1\<close> down to \<open>0\<close>.
\<close>

definition isVisionSource :: "Shape \<Rightarrow> VisionSource \<Rightarrow> bool" where
  "isVisionSource s ls = list_ex (\<lambda>a. aura_uuid a = vs_aura ls \<and> visionSource a) (auras s)"

fun stillSources :: "Shape \<Rightarrow> nat \<Rightarrow> VisionSource list \<Rightarrow> VisionSource list" where
  "stillSources s 0 vs = vs"
| "stillSources s (Suc i) vs =
     (let ls = vs ! i
      in if vs_shape ls = uuid s \<and> \<not> isVisionSource s ls
         then stillSources s i (splice1 (int i) vs)
         else stillSources s i vs)"

definition reconcileSources :: "Shape \<Rightarrow> VisionSource list \<Rightarrow> VisionSource list" where
  "reconcileSources s vs0 =
     (let vs1 = foldl (auraStep (uuid s)) vs0 (auras s)
      in stillSources s (length vs1) vs1)"

definition checkVisionSources :: "bool \<Rightarrow> Shape \<Rightarrow> visibilityStore \<Rightarrow> bool \<times> visibilityStore" where
  "checkVisionSources recalculate s st0 =
     (let obstructionIndex = indexOf (getBlockers VISION (s_floor s) st0) (uuid s);
          (alteredVision, st1) =
            (if visionObstruction s \<and> obstructionIndex = -1 then
               (True, request recalculate (AddToTriag VISION (uuid s))
                        (addBlocker VISION (uuid s) (s_floor s) st0))
             else if \<not> visionObstruction s \<and> obstructionIndex \<ge> 0 then
               (True, request recalculate (DeleteFromTriag VISION (uuid s))
                        (sliceBlockers VISION obstructionIndex (s_floor s) st0))
             else (False, st0));
          st2 = request (alteredVision \<and> recalculate) (RecalculateVision (s_floor s)) st1;
          visionSources1 = reconcileSources s (getVisionSources (s_floor s) st2)
      in (alteredVision, setVisionSources visionSources1 (s_floor s) st2))"

subsection \<open>setMovementBlock\<close>

definition setMovementBlock ::
  "bool \<Rightarrow> bool \<Rightarrow> Shape \<times> visibilityStore \<Rightarrow> bool \<times> Shape \<times> visibilityStore" where
  "setMovementBlock blocksMovement recalculate sst =
     (let s = (fst sst)\<lparr>movementObstruction := (blocksMovement \<or> False)\<rparr>; st0 = snd sst;
          obstructionIndex = indexOf (getBlockers MOVEMENT (s_floor s) st0) (uuid s);
          (alteredMovement, st1) =
            (if movementObstruction s \<and> obstructionIndex = -1 then
               (True, request recalculate (AddToTriag MOVEMENT (uuid s))
                        (addBlocker MOVEMENT (uuid s) (s_floor s) st0))
             else if \<not> movementObstruction s \<and> obstructionIndex \<ge> 0 then
               (True, request recalculate (DeleteFromTriag MOVEMENT (uuid s))
                        (sliceBlockers MOVEMENT obstructionIndex (s_floor s) st0))
             else (False, st0));
          st2 = request (alteredMovement \<and> recalculate) (RecalculateMovement (s_floor s)) st1
      in (alteredMovement, s, st2))"

subsection \<open>Sequences of calls on one shape\<close>

text \<open>
  \<open>visionObstruction\<close> is a public field: a caller assigns it and then calls
  \<open>checkVisionSources\<close>. \<open>SetVisionObstruction b r\<close> is that pair of statements.
\<close>

datatype shape_call =
    SetMovementBlock bool bool
  | SetVisionObstruction bool bool
  | CheckVisionSources bool

fun call :: "shape_call \<Rightarrow> Shape \<times> visibilityStore \<Rightarrow> bool \<times> Shape \<times> visibilityStore" where
  "call (SetMovementBlock b r) sst = setMovementBlock b r sst"
| "call (SetVisionObstruction b r) sst =
     (let s = (fst sst)\<lparr>visionObstruction := b\<rparr>; res = checkVisionSources r s (snd sst)
      in (fst res, s, snd res))"
| "call (CheckVisionSources r) sst =
     (let res = checkVisionSources r (fst sst) (snd sst) in (fst res, fst sst, snd res))"

fun run :: "shape_call list \<Rightarrow> Shape \<times> visibilityStore \<Rightarrow> Shape \<times> visibilityStore" where
  "run [] sst = sst"
| "run (c # cs) sst = run cs (snd (call c sst))"

text \<open>
  What a call achieves for the shape with uuid \<open>sid\<close> on floor \<open>fl\<close>, from the state
  before to the state after it. The flag the call is about has the value asked for
  (\<open>checkVisionSources\<close> leaves the flag as it is); the blocker set of that target
  holds \<open>sid\<close> exactly when the flag is true, and every other id as before; the flag
  and the blocker set of the other target are as before.
\<close>

fun achieves ::
  "string \<Rightarrow> string \<Rightarrow> shape_call \<Rightarrow> Shape \<times> visibilityStore \<Rightarrow> Shape \<times> visibilityStore
     \<Rightarrow> bool" where
  "achieves sid fl (SetMovementBlock b r) before after \<longleftrightarrow>
     movementObstruction (fst after) = b
     \<and> (sid \<in> set (getBlockers MOVEMENT fl (snd after)) \<longleftrightarrow> b)
     \<and> set (getBlockers MOVEMENT fl (snd after)) - {sid}
         = set (getBlockers MOVEMENT fl (snd before)) - {sid}
     \<and> visionObstruction (fst after) = visionObstruction (fst before)
     \<and> getBlockers VISION fl (snd after) = getBlockers VISION fl (snd before)"
| "achieves sid fl (SetVisionObstruction b r) before after \<longleftrightarrow>
     visionObstruction (fst after) = b
     \<and> (sid \<in> set (getBlockers VISION fl (snd after)) \<longleftrightarrow> b)
     \<and> set (getBlockers VISION fl (snd after)) - {sid}
         = set (getBlockers VISION fl (snd before)) - {sid}
     \<and> movementObstruction (fst after) = movementObstruction (fst before)
     \<and> getBlockers MOVEMENT fl (snd after) = getBlockers MOVEMENT fl (snd before)"
| "achieves sid fl (CheckVisionSources r) before after \<longleftrightarrow>
     visionObstruction (fst after) = visionObstruction (fst before)
     \<and> (sid \<in> set (getBlockers VISION fl (snd after)) \<longleftrightarrow> visionObstruction (fst before))
     \<and> set (getBlockers VISION fl (snd after)) - {sid}
         = set (getBlockers VISION fl (snd before)) - {sid}
     \<and> movementObstruction (fst after) = movementObstruction (fst before)
     \<and> getBlockers MOVEMENT fl (snd after) = getBlockers MOVEMENT fl (snd before)"

section \<open>Group membership\<close>

definition Map_has :: "string \<Rightarrow> (string \<times> optval) list \<Rightarrow> bool" where
  "Map_has k m = list_ex (\<lambda>e. fst e = k) m"

definition Map_get :: "string \<Rightarrow> (string \<times> optval) list \<Rightarrow> optval" where
  "Map_get k m = (case map_of m k of None \<Rightarrow> OUndefined | Some v \<Rightarrow> v)"

fun Map_set :: "string \<Rightarrow> optval \<Rightarrow> (string \<times> optval) list \<Rightarrow> (string \<times> optval) list" where
  "Map_set k v [] = [(k, v)]"
| "Map_set k v (e # m) = (if fst e = k then (k, v) # m else e # Map_set k v m)"

definition Map_new :: "(string \<times> optval) list \<Rightarrow> (string \<times> optval) list" where
  "Map_new entries = foldl (\<lambda>m e. Map_set (fst e) (snd e) m) [] entries"

text \<open>
  \<open>registry\<close> is \<open>layerManager.UUIDMap\<close>. Casting \<open>groupInfo\<close> to \<open>string[]\<close> checks
  nothing: \<open>reduce\<close> on a value that is no array is a \<open>TypeError\<close>, and an element
  that is no string is no key of the registry.
\<close>

definition getGroupMembers :: "(string \<rightharpoonup> Shape) \<Rightarrow> Shape \<Rightarrow> js_error + Shape list" where
  "getGroupMembers registry s =
     (if \<not> (Map_has ''groupId'' (options s) \<or> Map_has ''groupInfo'' (options s)) then Inr [s]
      else
        (let groupId = (case Map_get ''groupId'' (options s) of
                          OUndefined \<Rightarrow> OStr (uuid s) | ONull \<Rightarrow> OStr (uuid s) | v \<Rightarrow> v);
             groupLeader = (if groupId = OStr (uuid s) then Some s
                            else (case groupId of OStr k \<Rightarrow> registry k | _ \<Rightarrow> None))
         in case groupLeader of
              None \<Rightarrow> Inr [s]
            | Some leader \<Rightarrow>
                if \<not> Map_has ''groupInfo'' (options leader) then Inr [s]
                else (case Map_get ''groupInfo'' (options leader) of
                        OArr groupIds \<Rightarrow>
                          Inr (leader #
                               foldl (\<lambda>acc u. case registry u of Some m \<Rightarrow> acc @ [m] | None \<Rightarrow> acc)
                                 [] groupIds)
                      | OList elements \<Rightarrow>
                          Inr (leader #
                               foldl (\<lambda>acc e. case e of
                                          OStr u \<Rightarrow> (case registry u of
                                                      Some m \<Rightarrow> acc @ [m] | None \<Rightarrow> acc)
                                        | _ \<Rightarrow> acc)
                                 [] elements)
                      | _ \<Rightarrow> Inl TypeError)))"

section \<open>The wire format\<close>

text \<open>
  \<open>ServerShape\<close>. The wire types of an aura (\<open>'sa\<close>) and of an owner (\<open>'so\<close>) are
  declared outside the source files; \<open>annotation\<close> and \<open>options\<close> are optional.
\<close>

record ('sa, 'so) ServerShape =
  data_type :: string
  data_uuid :: string
  data_x :: real
  data_y :: real
  data_angle :: real
  data_floor :: string
  data_layer :: string
  data_draw_operator :: string
  data_movement_obstruction :: bool
  data_vision_obstruction :: bool
  data_auras :: "'sa list"
  data_trackers :: "Tracker list"
  data_labels :: "Label list"
  data_owners :: "'so list"
  data_fill_colour :: string
  data_stroke_colour :: string
  data_stroke_width :: real
  data_name :: string
  data_name_visible :: bool
  data_annotation :: "string option"
  data_is_token :: bool
  data_is_invisible :: bool
  data_options :: "string option"
  data_badge :: int
  data_show_badge :: bool
  data_is_locked :: bool
  data_default_edit_access :: bool
  data_default_movement_access :: bool
  data_default_vision_access :: bool

text \<open>
  The conversions \<open>getBaseDict\<close> and \<open>fromDict\<close> call and the source files do not
  contain, taken as parameters: those of auras and owners
  (\<open>game/comm/conversion/aura\<close>, \<open>game/comm/types/shapes\<close>) and the JSON codec.
  \<open>JSON_parse\<close> gives the entries \<open>new Map\<close> receives, or the error of
  \<open>new Map(JSON.parse(...))\<close>: a \<open>SyntaxError\<close> of \<open>JSON.parse\<close> for a text that is no
  JSON, a \<open>TypeError\<close> of \<open>new Map\<close> for a value that is no list of entries.
\<close>

record ('sa, 'so) conversions =
  aurasToServer :: "Aura list \<Rightarrow> 'sa list"
  aurasFromServer :: "'sa list \<Rightarrow> Aura list"
  ownerToServer :: "ShapeOwner \<Rightarrow> 'so"
  ownerToClient :: "'so \<Rightarrow> ShapeOwner"
  JSON_stringify :: "(string \<times> optval) list \<Rightarrow> string"
  JSON_parse :: "string \<Rightarrow> js_error + (string \<times> optval) list"

definition getBaseDict :: "('sa, 'so) conversions \<Rightarrow> Shape \<Rightarrow> ('sa, 'so) ServerShape" where
  "getBaseDict cv s =
     \<lparr>data_type = shape_type s,
      data_uuid = uuid s,
      data_x = fst (refPoint s),
      data_y = snd (refPoint s),
      data_angle = s_angle s,
      data_floor = s_floor s,
      data_layer = s_layer s,
      data_draw_operator = globalCompositeOperation s,
      data_movement_obstruction = movementObstruction s,
      data_vision_obstruction = visionObstruction s,
      data_auras = aurasToServer cv (auras s),
      data_trackers = trackers s,
      data_labels = labels s,
      data_owners = map (ownerToServer cv) (owners s),
      data_fill_colour = fillColour s,
      data_stroke_colour = strokeColour s,
      data_stroke_width = strokeWidth s,
      data_name = name s,
      data_name_visible = nameVisible s,
      data_annotation = Some (annotation s),
      data_is_token = isToken s,
      data_is_invisible = isInvisible s,
      data_options = Some (JSON_stringify cv (options s)),
      data_badge = badge s,
      data_show_badge = showBadge s,
      data_is_locked = isLocked s,
      data_default_edit_access = edit (defaultAccess s),
      data_default_movement_access = movement (defaultAccess s),
      data_default_vision_access = vision (defaultAccess s)\<rparr>"

text \<open>
  \<open>if (data.annotation)\<close>, \<open>if (data.name)\<close>, \<open>if (data.options)\<close>: an absent and an
  empty string are both falsy.
\<close>

fun truthyStr :: "string option \<Rightarrow> bool" where
  "truthyStr None = False"
| "truthyStr (Some v) = (v \<noteq> [])"

text \<open>
  The assignments of \<open>fromDict\<close> in the order of the source, up to the call of
  \<open>updateDefaultOwner\<close>; \<open>stroke_width\<close>, \<open>type_\<close>, \<open>uuid\<close>, \<open>x\<close> and \<open>y\<close> are not
  read. The setter of \<open>angle\<close> stores the angle and calls \<open>updatePoints\<close>, that is
  \<open>this.layer.updateShapePoints(this)\<close>, with the floor and layer just assigned.
  \<open>layerOn fl ly\<close> says that the layer manager (\<open>getFloor\<close>, \<open>getLayer\<close>; not among the
  source files) resolves the floor \<open>fl\<close> and, on it, the layer \<open>ly\<close>; where it does
  not, \<open>this.layer\<close> is \<open>undefined\<close> and the call is a \<open>TypeError\<close>.
  \<open>new Map(JSON.parse(data.options))\<close> may throw as well. An exception leaves
  \<open>fromDict\<close> with the shape partly assigned; the model gives the error alone.
\<close>

definition fromDictFields ::
  "('sa, 'so) conversions \<Rightarrow> (string \<Rightarrow> string \<Rightarrow> bool) \<Rightarrow> ('sa, 'so) ServerShape \<Rightarrow> Shape
     \<Rightarrow> js_error + Shape" where
  "fromDictFields cv layerOn d s =
     (let s0 = s\<lparr>s_layer := data_layer d,
                 s_floor := data_floor d,
                 s_angle := data_angle d\<rparr>
      in if \<not> layerOn (s_floor s0) (s_layer s0) then Inl TypeError
         else
           (let s1 = s0\<lparr>globalCompositeOperation := data_draw_operator d,
                       movementObstruction := data_movement_obstruction d,
                       visionObstruction := data_vision_obstruction d,
                       auras := aurasFromServer cv (data_auras d),
                       trackers := data_trackers d,
                       labels := data_labels d,
                       owners := map (ownerToClient cv) (data_owners d),
                       fillColour := data_fill_colour d,
                       strokeColour := data_stroke_colour d,
                       isToken := data_is_token d,
                       isInvisible := data_is_invisible d,
                       nameVisible := data_name_visible d,
                       badge := data_badge d,
                       showBadge := data_show_badge d,
                       isLocked := data_is_locked d\<rparr>;
                s2 = (if truthyStr (data_annotation d)
                      then s1\<lparr>annotation := the (data_annotation d)\<rparr> else s1);
                s3 = (if data_name d \<noteq> [] then s2\<lparr>name := data_name d\<rparr> else s2)
            in if truthyStr (data_options d) then
                 (case JSON_parse cv (the (data_options d)) of
                    Inl e \<Rightarrow> Inl e
                  | Inr entries \<Rightarrow> Inr (s3\<lparr>options := Map_new entries\<rparr>))
               else Inr s3))"

text \<open>
  \<open>fromDict\<close>: the assignments, with the request to the layer that the angle's setter
  makes, then \<open>updateDefaultOwner\<close> with the payload's default access and
  \<open>sync = false\<close>. An exception leaves \<open>fromDict\<close> before \<open>updateDefaultOwner\<close> is
  called.
\<close>

definition fromDict ::
  "('sa, 'so) conversions \<Rightarrow> (string \<Rightarrow> string \<Rightarrow> bool) \<Rightarrow> ('sa, 'so) ServerShape
     \<Rightarrow> gameStore \<times> Shape \<Rightarrow> js_error + gameStore \<times> Shape" where
  "fromDict cv layerOn d gs =
     (case fromDictFields cv layerOn d (snd gs) of
        Inl e \<Rightarrow> Inl e
      | Inr s4 \<Rightarrow>
          Inr (updateDefaultOwner
                 \<lparr>edit = data_default_edit_access d,
                  vision = data_default_vision_access d,
                  movement = data_default_movement_access d\<rparr>
                 False
                 ((fst gs)\<lparr>outbox := outbox (fst gs) @ [UpdateShapePoints (uuid s4)]\<rparr>, s4)))"

section \<open>The inbound "remove shape" event\<close>

text \<open>
  The state the handler reaches through \<open>gameManager\<close>: the shape registry
  (\<open>layerManager.UUIDMap\<close>), the layers by name, the console, and \<open>rest\<close> for everything
  else the layer's methods may change. \<open>removeShape\<close> and \<open>invalidate\<close> are methods of
  the layer, which the source files do not contain: parameters of the handler.
\<close>

record ('sh, 'ly, 'r) gameManager =
  UUIDMap :: "string \<rightharpoonup> 'sh"
  layers :: "string \<rightharpoonup> 'ly"
  console :: "string list"
  rest :: 'r

definition onRemoveShape ::
  "('ly \<Rightarrow> 'sh \<Rightarrow> bool \<Rightarrow> ('sh, 'ly, 'r) gameManager \<Rightarrow> ('sh, 'ly, 'r) gameManager)
     \<Rightarrow> ('ly \<Rightarrow> bool \<Rightarrow> ('sh, 'ly, 'r) gameManager \<Rightarrow> ('sh, 'ly, 'r) gameManager)
     \<Rightarrow> ('sa, 'so) ServerShape \<Rightarrow> ('sh, 'ly, 'r) gameManager \<Rightarrow> ('sh, 'ly, 'r) gameManager" where
  "onRemoveShape removeShape invalidate d gm =
     (case UUIDMap gm (data_uuid d) of
        None \<Rightarrow> gm\<lparr>console := console gm @ [''Attempted to remove an unknown shape'']\<rparr>
      | Some sh \<Rightarrow>
          (case layers gm (data_layer d) of
             None \<Rightarrow> gm\<lparr>console := console gm @
                        [''Attempted to remove shape from an unknown layer '' @ data_layer d]\<rparr>
           | Some layer \<Rightarrow> invalidate layer False (removeShape layer sh False gm)))"

section \<open>Rules and examples of the ownership model\<close>

text \<open>The rule of the specification: a grant with \<open>edit\<close> has \<open>vision\<close> and \<open>movement\<close>.\<close>

definition editImpliesAll :: "ShapeAccess \<Rightarrow> bool" where
  "editImpliesAll a \<longleftrightarrow> (edit a \<longrightarrow> vision a \<and> movement a)"

text \<open>Concrete sessions and requirements for the examples below.\<close>

definition playerStore :: "string \<Rightarrow> gameStore" where
  "playerStore un =
     \<lparr>IS_DM = False, FAKE_PLAYER = False, username = un, activeTokens = [],
      ownedtokens = [], fowLos = False, outbox = []\<rparr>"

definition bareShape :: "string \<Rightarrow> OwnedShape" where
  "bareShape sid =
     \<lparr>uuid = sid, isToken = False, owners = [],
      defaultAccess = \<lparr>edit = False, vision = False, movement = False\<rparr>\<rparr>"

definition require :: "bool \<Rightarrow> bool \<Rightarrow> bool \<Rightarrow> OwnedByOptions" where
  "require e v m =
     \<lparr>editAccess = (if e then Some True else None),
      visionAccess = (if v then Some True else None),
      movementAccess = (if m then Some True else None)\<rparr>"

definition aliceEdit :: PartialShapeOwner where
  "aliceEdit =
     \<lparr>po_shape = None, po_user = ''alice'',
      po_access = \<lparr>p_edit = Some True, p_vision = None, p_movement = None\<rparr>\<rparr>"

text \<open>
  An access grants all, or at least one, of the required capabilities.
\<close>

definition grantsAll :: "OwnedByOptions \<Rightarrow> ShapeAccess \<Rightarrow> bool" where
  "grantsAll opts a \<longleftrightarrow>
     (truthy (editAccess opts) \<longrightarrow> edit a) \<and>
     (truthy (movementAccess opts) \<longrightarrow> movement a) \<and>
     (truthy (visionAccess opts) \<longrightarrow> vision a)"

definition grantsSome :: "OwnedByOptions \<Rightarrow> ShapeAccess \<Rightarrow> bool" where
  "grantsSome opts a \<longleftrightarrow>
     (truthy (editAccess opts) \<and> edit a) \<or>
     (truthy (movementAccess opts) \<and> movement a) \<or>
     (truthy (visionAccess opts) \<and> vision a)"

text \<open>
  The wording of the specification for \<open>ownedBy\<close>: the default access, like an owner's
  entry, has to grant all required capabilities.
\<close>

definition ownedBy_spec :: "gameStore \<Rightarrow> OwnedShape \<Rightarrow> OwnedByOptions \<Rightarrow> bool" where
  "ownedBy_spec g s opts \<longleftrightarrow>
     IS_DM g \<or>
     (FAKE_PLAYER g \<and> uuid s \<in> set (activeTokens g)) \<or>
     grantsAll opts (defaultAccess s) \<or>
     list_ex (\<lambda>u. user u = username g \<and> grantsAll opts (access u)) (owners s)"

definition aliceFull :: OwnedShape where
  "aliceFull =
     \<lparr>uuid = ''s1'', isToken = False,
      owners = [\<lparr>shape = ''s1'', user = ''alice'',
                 access = \<lparr>edit = True, vision = True, movement = True\<rparr>\<rparr>],
      defaultAccess = \<lparr>edit = True, vision = True, movement = True\<rparr>\<rparr>"

section \<open>Notions used to state the properties of the visibility store\<close>

text \<open>Removing the first element that satisfies a predicate.\<close>

fun dropFirst :: "('a \<Rightarrow> bool) \<Rightarrow> 'a list \<Rightarrow> 'a list" where
  "dropFirst p [] = []"
| "dropFirst p (x # xs) = (if p x then xs else x # dropFirst p xs)"

text \<open>
  An entry of the registry survives the second loop of \<open>checkVisionSources\<close>: it
  belongs to another shape, or to an aura of this shape that is a vision source.
\<close>

definition keeps :: "Shape \<Rightarrow> VisionSource \<Rightarrow> bool" where
  "keeps s ls \<longleftrightarrow> \<not> (vs_shape ls = uuid s \<and> \<not> isVisionSource s ls)"

text \<open>
  The registry is reconciled with a shape: an aura of the shape has an entry exactly
  when it is a vision source, and every entry passes the second loop.
\<close>

definition settled :: "Shape \<Rightarrow> VisionSource list \<Rightarrow> bool" where
  "settled s vs \<longleftrightarrow>
     list_all (\<lambda>au. list_ex (\<lambda>o1. vs_aura o1 = aura_uuid au) vs = visionSource au) (auras s)
     \<and> list_all (keeps s) vs"

text \<open>The blocker ids of the shape's floor are sets: no id occurs twice.\<close>

definition blockersDistinct :: "Shape \<times> visibilityStore \<Rightarrow> bool" where
  "blockersDistinct sst \<longleftrightarrow>
     distinct (getBlockers VISION (s_floor (fst sst)) (snd sst)) \<and>
     distinct (getBlockers MOVEMENT (s_floor (fst sst)) (snd sst))"

text \<open>Examples: an empty store, and a fresh shape \<open>s1\<close> placed on a floor.\<close>

definition emptyStore :: visibilityStore where
  "emptyStore =
     \<lparr>visionBlockers = (\<lambda>fl. []), movementBlockers = (\<lambda>fl. []),
      visionSources = (\<lambda>fl. []), triag = []\<rparr>"

definition shapeS1 :: Shape where
  "shapeS1 = setLayer ''ground'' ''tokens'' (newShape ''rect'' (0, 0) None None (Some ''s1'') ''fresh'')"

definition torch :: Aura where
  "torch = \<lparr>aura_uuid = ''a1'', visionSource = True, aura_value = 10, aura_dim = 5\<rparr>"

section \<open>Examples for the wire format, groups and the event handler\<close>

text \<open>
  Conversions for the examples: the wire types of auras and owners are the client's
  own, converted by copying. The codec knows two maps, the empty one, written \<open>[]\<close>,
  and \<open>groupOptions\<close>, written as the JSON text \<open>groupOptionsText\<close>; it refuses every
  other text. \<open>quoted\<close> puts a text between double quotes.
\<close>

definition quoted :: "string \<Rightarrow> string" where
  "quoted t = CHR 0x22 # t @ [CHR 0x22]"

definition groupOptions :: "(string \<times> optval) list" where
  "groupOptions = [(''groupId'', OStr ''s9''), (''hp'', ONum 7), (''hidden'', OBool True)]"

definition groupOptionsText :: string where
  "groupOptionsText =
     ''[['' @ quoted ''groupId'' @ '','' @ quoted ''s9'' @ ''],['' @ quoted ''hp'' @ '',7],[''
       @ quoted ''hidden'' @ '',true]]''"

definition plainConv :: "(Aura, ShapeOwner) conversions" where
  "plainConv =
     \<lparr>aurasToServer = (\<lambda>as. as),
      aurasFromServer = (\<lambda>as. as),
      ownerToServer = (\<lambda>u. u),
      ownerToClient = (\<lambda>u. u),
      JSON_stringify = (\<lambda>m. if m = [] then ''[]''
                            else if m = groupOptions then groupOptionsText else ''[...]''),
      JSON_parse = (\<lambda>t. if t = ''[]'' then Inr []
                        else if t = groupOptionsText then Inr groupOptions
                        else Inl SyntaxError)\<rparr>"

text \<open>A layer manager with one floor, \<open>ground\<close>, and one layer on it, \<open>tokens\<close>.\<close>

definition groundTokens :: "string \<Rightarrow> string \<Rightarrow> bool" where
  "groundTokens fl ly \<longleftrightarrow> fl = ''ground'' \<and> ly = ''tokens''"

definition payloadS1 :: "(Aura, ShapeOwner) ServerShape" where
  "payloadS1 = getBaseDict plainConv shapeS1"

definition member :: "string \<Rightarrow> Shape" where
  "member sid = setLayer ''ground'' ''tokens'' (newShape ''rect'' (0, 0) None None (Some sid) ''fresh'')"

definition leaderS1 :: Shape where
  "leaderS1 = shapeS1\<lparr>options := [(''groupInfo'', OArr [''m1'', ''gone'', ''m2''])]\<rparr>"

definition twoMembers :: "string \<rightharpoonup> Shape" where
  "twoMembers = [''m1'' \<mapsto> member ''m1'', ''m2'' \<mapsto> member ''m2'']"

definition knownLayer :: "(unit, unit, unit) gameManager" where
  "knownLayer = \<lparr>UUIDMap = Map.empty, layers = [''tokens'' \<mapsto> ()], console = [], rest = ()\<rparr>"

text \<open>
  A payload whose owner list holds a grant with edit and nothing else, and a payload
  with an empty name.
\<close>

definition editOnlyGrant :: ShapeOwner where
  "editOnlyGrant =
     \<lparr>shape = ''s1'', user = ''alice'',
      access = \<lparr>edit = True, vision = False, movement = False\<rparr>\<rparr>"

definition payloadEditOnly :: "(Aura, ShapeOwner) ServerShape" where
  "payloadEditOnly = payloadS1\<lparr>data_owners := [editOnlyGrant]\<rparr>"

definition payloadNoName :: "(Aura, ShapeOwner) ServerShape" where
  "payloadNoName = payloadS1\<lparr>data_name := []\<rparr>"

text \<open>The shape a payload is deserialised into: constructed with its type, position and uuid.\<close>

definition shapeFor :: "('sa, 'so) ServerShape \<Rightarrow> Shape" where
  "shapeFor d = newShape (data_type d) (data_x d, data_y d) None None (Some (data_uuid d)) ''fresh''"

text \<open>The default access triple of a payload.\<close>

definition data_defaultAccess :: "('sa, 'so) ServerShape \<Rightarrow> ShapeAccess" where
  "data_defaultAccess d =
     \<lparr>edit = data_default_edit_access d,
      vision = data_default_vision_access d,
      movement = data_default_movement_access d\<rparr>"

text \<open>
  The wire conversions and the JSON codec reproduce the auras, owners and options of a
  payload.
\<close>

definition reproduces :: "('sa, 'so) conversions \<Rightarrow> ('sa, 'so) ServerShape \<Rightarrow> bool" where
  "reproduces cv d \<longleftrightarrow>
     aurasToServer cv (aurasFromServer cv (data_auras d)) = data_auras d \<and>
     map (\<lambda>u. ownerToServer cv (ownerToClient cv u)) (data_owners d) = data_owners d \<and>
     (case data_options d of
        None \<Rightarrow> False
      | Some t \<Rightarrow> t \<noteq> [] \<and>
          (case JSON_parse cv t of
             Inl e \<Rightarrow> False
           | Inr entries \<Rightarrow> JSON_stringify cv (Map_new entries) = t))"

text \<open>A payload with values that differ from those of a fresh shape.\<close>

definition payloadGoblin :: "(Aura, ShapeOwner) ServerShape" where
  "payloadGoblin =
     payloadS1\<lparr>data_angle := 1, data_vision_obstruction := True, data_auras := [torch],
       data_owners := [\<lparr>shape = ''s1'', user = ''alice'',
                        access = \<lparr>edit = False, vision = True, movement = True\<rparr>\<rparr>],
       data_stroke_width := 3, data_name := ''Goblin'', data_annotation := Some ''chief'',
       data_is_token := True, data_options := Some groupOptionsText, data_badge := 2,
       data_default_vision_access := True\<rparr>"

section \<open>Properties\<close>

subsection \<open>Ownership\<close>

lemma applyRules_rule: "editImpliesAll (applyRules b a)"
  by (cases b) (auto simp: applyRules_def editImpliesAll_def someFalse_def Let_def)

lemma applyRules_id: "editImpliesAll a \<Longrightarrow> applyRules b a = a"
  by (cases b) (auto simp: applyRules_def editImpliesAll_def someFalse_def Let_def)

lemma find_setFirstAccess:
  "find (\<lambda>u. user u = un) os = Some t \<Longrightarrow>
   find (\<lambda>u. user u = un) (setFirstAccess un a os) = Some (t\<lparr>access := a\<rparr>)"
  by (induction os) (auto split: if_splits)

lemma hasOwner_find:
  "hasOwner s un \<longleftrightarrow> find (\<lambda>u. user u = un) (owners s) \<noteq> None"
  by (auto simp: hasOwner_def list_ex_iff find_None_iff)

lemma updateOwner_applied:
  assumes "ou_shape owner = None \<or> ou_shape owner = Some (uuid s)"
    and "find (\<lambda>u. user u = ou_user owner) (owners s) = Some t"
  shows "owners (snd (updateOwner owner sync (g, s))) =
         setFirstAccess (ou_user owner) (applyRules (edit (access t)) (ou_access owner)) (owners s)"
  using assms
  by (auto simp: updateOwner_def Let_def hasOwner_find emit_def invalidateLight_def)

text \<open>
  C5, as the claim states it, fails. A shape whose default access grants vision only,
  asked for vision and movement by a player who is no owner: \<open>ownedBy\<close> is true, since
  one of the required capabilities is granted by default, while the default access does
  not grant all of them. With nothing required the claim's reading holds for every
  shape, and \<open>ownedBy\<close> is false for a player without an entry.
\<close>

theorem ownedBy_default_all_counterexample:
  "ownedBy (playerStore ''bob'')
      ((bareShape ''s1'')\<lparr>defaultAccess := \<lparr>edit = False, vision = True, movement = False\<rparr>\<rparr>)
      (require False True True)
   \<and> \<not> ownedBy_spec (playerStore ''bob'')
      ((bareShape ''s1'')\<lparr>defaultAccess := \<lparr>edit = False, vision = True, movement = False\<rparr>\<rparr>)
      (require False True True)
   \<and> \<not> ownedBy (playerStore ''bob'') (bareShape ''s1'') (require False False False)
   \<and> ownedBy_spec (playerStore ''bob'') (bareShape ''s1'') (require False False False)"
  by (simp add: ownedBy_def ownedBy_spec_def playerStore_def bareShape_def require_def
      grantsAll_def)

text \<open>
  C5, amended: \<open>ownedBy\<close> is true exactly when the acting identity is the game master,
  or impersonates a player and the shape is one of the active tokens, or the default
  access grants at least one of the required capabilities, or an owner entry of the
  acting user grants all of them. \<open>ownedBy\<close> is a function of the session store, the
  shape and the requirement to a truth value: it returns no new state.
\<close>

theorem ownedBy_characterisation:
  "ownedBy g s opts \<longleftrightarrow>
     IS_DM g \<or> (FAKE_PLAYER g \<and> uuid s \<in> set (activeTokens g)) \<or>
     grantsSome opts (defaultAccess s) \<or>
     (\<exists>u \<in> set (owners s). user u = username g \<and> grantsAll opts (access u))"
proof -
  have m: "ownerMatches (username g) opts u \<longleftrightarrow> user u = username g \<and> grantsAll opts (access u)"
    for u
    by (simp add: ownerMatches_def grantsAll_def)
  show ?thesis
    unfolding ownedBy_def grantsSome_def list_ex_iff m by blast
qed

text \<open>
  The scenario of the specification: alice is granted edit on shape \<open>s1\<close>; asked for
  edit access, alice owns the shape and bob does not.
\<close>

theorem ownedBy_characterisation_witness:
  "ownedBy (playerStore ''alice'')
      (snd (addOwner aliceEdit False (playerStore ''alice'', bareShape ''s1'')))
      (require True False False)
   \<and> \<not> ownedBy (playerStore ''bob'')
      (snd (addOwner aliceEdit False (playerStore ''alice'', bareShape ''s1'')))
      (require True False False)"
  using ownedBy_characterisation [of "playerStore ''alice''"
      "snd (addOwner aliceEdit False (playerStore ''alice'', bareShape ''s1''))"
      "require True False False"]
    ownedBy_characterisation [of "playerStore ''bob''"
      "snd (addOwner aliceEdit False (playerStore ''alice'', bareShape ''s1''))"
      "require True False False"]
  by (simp add: addOwner_def aliceEdit_def playerStore_def bareShape_def require_def
      hasOwner_def forceOnEdit_def fillAccess_def emit_def invalidateLight_def Let_def
      grantsAll_def grantsSome_def)

text \<open>
  C10: with no capability required, \<open>ownedBy\<close> is true exactly for the game master, for
  an impersonated active token, and for a user with an entry in the owner list,
  whatever the entry grants; the default access does not change the result.
\<close>

theorem ownedBy_nothing_required:
  assumes "\<not> truthy (editAccess opts)" "\<not> truthy (movementAccess opts)"
    "\<not> truthy (visionAccess opts)"
  shows "(ownedBy g s opts \<longleftrightarrow>
            IS_DM g \<or> (FAKE_PLAYER g \<and> uuid s \<in> set (activeTokens g)) \<or>
            (\<exists>u \<in> set (owners s). user u = username g))
         \<and> ownedBy g (s\<lparr>defaultAccess := d\<rparr>) opts = ownedBy g s opts"
  using assms by (auto simp: ownedBy_def list_ex_iff ownerMatches_def)

theorem ownedBy_nothing_required_witness:
  "ownedBy (playerStore ''alice'')
     ((bareShape ''s1'')\<lparr>owners :=
        [\<lparr>shape = ''s1'', user = ''alice'',
          access = \<lparr>edit = False, vision = False, movement = False\<rparr>\<rparr>]\<rparr>)
     (require False False False)
   \<and> \<not> ownedBy (playerStore ''bob'')
     ((bareShape ''s1'')\<lparr>owners :=
        [\<lparr>shape = ''s1'', user = ''alice'',
          access = \<lparr>edit = False, vision = False, movement = False\<rparr>\<rparr>],
        defaultAccess := \<lparr>edit = True, vision = True, movement = True\<rparr>\<rparr>)
     (require False False False)"
  using ownedBy_nothing_required [of "require False False False" "playerStore ''alice''"
      "(bareShape ''s1'')\<lparr>owners :=
        [\<lparr>shape = ''s1'', user = ''alice'',
          access = \<lparr>edit = False, vision = False, movement = False\<rparr>\<rparr>]\<rparr>"
      "\<lparr>edit = True, vision = True, movement = True\<rparr>"]
    ownedBy_nothing_required [of "require False False False" "playerStore ''bob''"
      "(bareShape ''s1'')\<lparr>owners :=
        [\<lparr>shape = ''s1'', user = ''alice'',
          access = \<lparr>edit = False, vision = False, movement = False\<rparr>\<rparr>]\<rparr>"
      "\<lparr>edit = True, vision = True, movement = True\<rparr>"]
  by (simp add: playerStore_def bareShape_def require_def)

text \<open>
  C6: a grant that has edit and is updated with vision or movement switched off ends
  without edit, for an owner's entry (\<open>updateOwner\<close>; the entry is the one \<open>find\<close> gives
  for the user, and the update names this shape or none) and for the default access
  (\<open>updateDefaultOwner\<close>). The capabilities asked for are stored as given.
\<close>

theorem edit_revoked_on_downgrade:
  assumes "\<not> vision a \<or> \<not> movement a"
  shows "((ou_shape owner = None \<or> ou_shape owner = Some (uuid s)) \<and>
          find (\<lambda>u. user u = ou_user owner) (owners s) = Some t \<and> edit (access t) \<and>
          ou_access owner = a
          \<longrightarrow> find (\<lambda>u. user u = ou_user owner) (owners (snd (updateOwner owner sync (g, s))))
                = Some (t\<lparr>access := a\<lparr>edit := False\<rparr>\<rparr>))
         \<and> (edit (defaultAccess s)
          \<longrightarrow> defaultAccess (snd (updateDefaultOwner a sync (g, s))) = a\<lparr>edit := False\<rparr>)"
proof -
  have r: "applyRules True a = a\<lparr>edit := False\<rparr>"
    using assms by (auto simp: applyRules_def someFalse_def Let_def)
  show ?thesis
    by (auto simp: updateOwner_applied find_setFirstAccess r updateDefaultOwner_def Let_def)
qed

theorem edit_revoked_on_downgrade_witness:
  "find (\<lambda>u. user u = ''alice'')
     (owners (snd (updateOwner
        \<lparr>ou_shape = None, ou_user = ''alice'',
         ou_access = \<lparr>edit = True, vision = False, movement = True\<rparr>\<rparr>
        False (playerStore ''alice'', aliceFull))))
     = Some \<lparr>shape = ''s1'', user = ''alice'',
              access = \<lparr>edit = False, vision = False, movement = True\<rparr>\<rparr>
   \<and> defaultAccess (snd (updateDefaultOwner \<lparr>edit = True, vision = False, movement = True\<rparr>
        False (playerStore ''alice'', aliceFull)))
     = \<lparr>edit = False, vision = False, movement = True\<rparr>"
  using edit_revoked_on_downgrade [of "\<lparr>edit = True, vision = False, movement = True\<rparr>"
      "\<lparr>ou_shape = None, ou_user = ''alice'',
        ou_access = \<lparr>edit = True, vision = False, movement = True\<rparr>\<rparr>"
      aliceFull
      "\<lparr>shape = ''s1'', user = ''alice'',
        access = \<lparr>edit = True, vision = True, movement = True\<rparr>\<rparr>"
      False "playerStore ''alice''"]
  by (simp add: aliceFull_def)

subsection \<open>Array primitives\<close>

lemma findIndex_ge: "- 1 \<le> findIndex p xs"
  by (induction xs) (auto simp: Let_def)

lemma findIndex_none: "findIndex p xs = - 1 \<longleftrightarrow> (\<forall>x \<in> set xs. \<not> p x)"
proof (induction xs)
  case Nil
  show ?case by simp
next
  case (Cons x xs)
  have "findIndex p xs + 1 \<noteq> - 1"
    using findIndex_ge [of p xs] by arith
  with Cons show ?case by (auto simp: Let_def)
qed

lemma findIndex_some: "0 \<le> findIndex p xs \<longleftrightarrow> (\<exists>x \<in> set xs. p x)"
  using findIndex_none [of p xs] findIndex_ge [of p xs] by force

lemma splice1_findIndex:
  "\<exists>x \<in> set xs. p x \<Longrightarrow> splice1 (findIndex p xs) xs = dropFirst p xs"
proof (induction xs)
  case Nil
  then show ?case by simp
next
  case (Cons x xs)
  show ?case
  proof (cases "p x")
    case True
    then show ?thesis by (simp add: splice1_def)
  next
    case False
    with Cons.prems have ex: "\<exists>y \<in> set xs. p y" by simp
    then have i: "0 \<le> findIndex p xs" by (simp add: findIndex_some)
    then have n: "nat (findIndex p xs + 1) = Suc (nat (findIndex p xs))" by arith
    have "findIndex p xs \<noteq> - 1" using i by arith
    with False have "findIndex p (x # xs) = findIndex p xs + 1" by (simp add: Let_def)
    moreover have "splice1 (findIndex p xs) xs = dropFirst p xs" using Cons.IH ex by simp
    ultimately show ?thesis using False n by (simp add: splice1_def)
  qed
qed

lemma dropFirst_eq_remove1: "dropFirst (\<lambda>y. y = x) xs = remove1 x xs"
  by (induction xs) auto

lemma map_dropFirst: "map f (dropFirst (\<lambda>y. f y = k) xs) = remove1 k (map f xs)"
  by (induction xs) auto

lemma indexOf_none: "indexOf xs x = - 1 \<longleftrightarrow> x \<notin> set xs"
  by (auto simp: indexOf_def findIndex_none)

lemma indexOf_some: "0 \<le> indexOf xs x \<longleftrightarrow> x \<in> set xs"
  by (auto simp: indexOf_def findIndex_some)

lemma splice1_indexOf: "x \<in> set xs \<Longrightarrow> splice1 (indexOf xs x) xs = remove1 x xs"
  unfolding indexOf_def by (subst splice1_findIndex) (auto simp: dropFirst_eq_remove1)

subsection \<open>The two loops over the vision sources\<close>

lemma stillSources_filter:
  "n \<le> length vs \<Longrightarrow> stillSources s n vs = filter (keeps s) (take n vs) @ drop n vs"
proof (induction n arbitrary: vs)
  case 0
  show ?case by simp
next
  case (Suc i)
  then have i: "i < length vs" by simp
  have t: "take (Suc i) vs = take i vs @ [vs ! i]"
    using i by (simp add: take_Suc_conv_app_nth)
  show ?case
  proof (cases "keeps s (vs ! i)")
    case True
    then have "stillSources s (Suc i) vs = stillSources s i vs"
      by (auto simp: keeps_def Let_def)
    also have "\<dots> = filter (keeps s) (take i vs) @ drop i vs"
      using Suc.IH i by simp
    also have "drop i vs = vs ! i # drop (Suc i) vs"
      using i by (simp add: Cons_nth_drop_Suc)
    finally show ?thesis using True t by simp
  next
    case False
    let ?ws = "take i vs @ drop (Suc i) vs"
    have "stillSources s (Suc i) vs = stillSources s i ?ws"
      using False by (simp add: keeps_def Let_def splice1_def)
    also have "\<dots> = filter (keeps s) (take i ?ws) @ drop i ?ws"
      using i by (intro Suc.IH) simp
    also have "take i ?ws = take i vs" using i by simp
    also have "drop i ?ws = drop (Suc i) vs" using i by simp
    finally show ?thesis using False t by simp
  qed
qed

lemma reconcileSources_filter:
  "reconcileSources s vs = filter (keeps s) (foldl (auraStep (uuid s)) vs (auras s))"
  by (simp add: reconcileSources_def Let_def stillSources_filter)

lemma in_ids: "k \<in> vs_aura ` set vs \<longleftrightarrow> (\<exists>o1 \<in> set vs. vs_aura o1 = k)"
  by force

lemma auraStep_cases:
  "auraStep sid vs au =
     (if visionSource au \<and> aura_uuid au \<notin> vs_aura ` set vs
        then vs @ [\<lparr>vs_shape = sid, vs_aura = aura_uuid au\<rparr>]
      else if \<not> visionSource au \<and> aura_uuid au \<in> vs_aura ` set vs
        then dropFirst (\<lambda>o1. vs_aura o1 = aura_uuid au) vs
      else vs)"
proof -
  let ?p = "\<lambda>o1. vs_aura o1 = aura_uuid au"
  have a: "findIndex ?p vs = - 1 \<longleftrightarrow> aura_uuid au \<notin> vs_aura ` set vs"
    unfolding findIndex_none in_ids by blast
  have b: "0 \<le> findIndex ?p vs \<longleftrightarrow> aura_uuid au \<in> vs_aura ` set vs"
    unfolding findIndex_some in_ids by blast
  have c: "aura_uuid au \<in> vs_aura ` set vs \<Longrightarrow> splice1 (findIndex ?p vs) vs = dropFirst ?p vs"
    unfolding in_ids by (rule splice1_findIndex)
  show ?thesis
    unfolding auraStep_def Let_def a b using c by simp
qed

lemma auraStep_ids:
  assumes "distinct (map vs_aura vs)"
  shows "distinct (map vs_aura (auraStep sid vs au))"
    and "aura_uuid au \<in> vs_aura ` set (auraStep sid vs au) \<longleftrightarrow> visionSource au"
    and "x \<noteq> aura_uuid au \<Longrightarrow>
           x \<in> vs_aura ` set (auraStep sid vs au) \<longleftrightarrow> x \<in> vs_aura ` set vs"
proof -
  let ?d = "dropFirst (\<lambda>o1. vs_aura o1 = aura_uuid au) vs"
  have m: "map vs_aura ?d = remove1 (aura_uuid au) (map vs_aura vs)"
    by (rule map_dropFirst)
  have s: "vs_aura ` set ?d = vs_aura ` set vs - {aura_uuid au}"
    using m assms by (metis set_map set_remove1_eq)
  show "distinct (map vs_aura (auraStep sid vs au))"
    using assms by (auto simp: auraStep_cases m)
  show "aura_uuid au \<in> vs_aura ` set (auraStep sid vs au) \<longleftrightarrow> visionSource au"
    by (auto simp: auraStep_cases s)
  show "x \<in> vs_aura ` set (auraStep sid vs au) \<longleftrightarrow> x \<in> vs_aura ` set vs"
    if "x \<noteq> aura_uuid au"
    using that by (auto simp: auraStep_cases s)
qed

lemma foldl_auraStep_ids:
  assumes "distinct (map vs_aura vs)" "distinct (map aura_uuid as)"
  shows "distinct (map vs_aura (foldl (auraStep sid) vs as))
     \<and> (\<forall>au \<in> set as. aura_uuid au \<in> vs_aura ` set (foldl (auraStep sid) vs as)
           \<longleftrightarrow> visionSource au)
     \<and> (\<forall>x. x \<notin> aura_uuid ` set as \<longrightarrow>
           (x \<in> vs_aura ` set (foldl (auraStep sid) vs as) \<longleftrightarrow> x \<in> vs_aura ` set vs))"
  using assms
proof (induction as arbitrary: vs)
  case Nil
  then show ?case by simp
next
  case (Cons a as)
  let ?v = "auraStep sid vs a"
  let ?r = "foldl (auraStep sid) ?v as"
  have d: "distinct (map vs_aura ?v)" using Cons.prems(1) by (rule auraStep_ids(1))
  have da: "distinct (map aura_uuid as)" and na: "aura_uuid a \<notin> aura_uuid ` set as"
    using Cons.prems(2) by auto
  note ih = Cons.IH [OF d da]
  have 1: "distinct (map vs_aura ?r)" using ih by simp
  have 2: "aura_uuid au \<in> vs_aura ` set ?r \<longleftrightarrow> visionSource au" if "au \<in> set as" for au
    using ih that by blast
  have 3: "x \<in> vs_aura ` set ?r \<longleftrightarrow> x \<in> vs_aura ` set ?v" if "x \<notin> aura_uuid ` set as" for x
    using ih that by blast
  have 4: "aura_uuid a \<in> vs_aura ` set ?r \<longleftrightarrow> visionSource a"
    using 3 [OF na] auraStep_ids(2) [OF Cons.prems(1)] by simp
  have 5: "x \<in> vs_aura ` set ?r \<longleftrightarrow> x \<in> vs_aura ` set vs"
    if "x \<notin> aura_uuid ` set (a # as)" for x
  proof -
    from that have "x \<noteq> aura_uuid a" "x \<notin> aura_uuid ` set as" by auto
    then show ?thesis using 3 auraStep_ids(3) [OF Cons.prems(1)] by simp
  qed
  show ?case using 1 2 4 5 by auto
qed

lemma settled_iff:
  "settled s vs \<longleftrightarrow>
     (\<forall>au \<in> set (auras s). aura_uuid au \<in> vs_aura ` set vs \<longleftrightarrow> visionSource au)
     \<and> (\<forall>ls \<in> set vs. keeps s ls)"
  unfolding settled_def list_all_iff list_ex_iff in_ids by simp

lemma foldl_auraStep_settled:
  "\<forall>au \<in> set as. aura_uuid au \<in> vs_aura ` set vs \<longleftrightarrow> visionSource au \<Longrightarrow>
   foldl (auraStep sid) vs as = vs"
  by (induction as) (auto simp: auraStep_cases)

lemma reconcileSources_settled: "settled s vs \<Longrightarrow> reconcileSources s vs = vs"
  by (simp add: reconcileSources_filter settled_iff foldl_auraStep_settled)

lemma reconcileSources_settles:
  assumes "distinct (map vs_aura vs)" "distinct (map aura_uuid (auras s))"
  shows "settled s (reconcileSources s vs)"
proof -
  let ?f = "foldl (auraStep (uuid s)) vs (auras s)"
  note f = foldl_auraStep_ids [OF assms, of "uuid s"]
  have "aura_uuid au \<in> vs_aura ` set (filter (keeps s) ?f) \<longleftrightarrow> visionSource au"
    if au: "au \<in> set (auras s)" for au
  proof
    assume "aura_uuid au \<in> vs_aura ` set (filter (keeps s) ?f)"
    then have "aura_uuid au \<in> vs_aura ` set ?f" by auto
    then show "visionSource au" using f au by blast
  next
    assume v: "visionSource au"
    then have "aura_uuid au \<in> vs_aura ` set ?f" using f au by blast
    then obtain ls where ls: "ls \<in> set ?f" "vs_aura ls = aura_uuid au" by auto
    have "isVisionSource s ls"
      using au v ls(2) by (auto simp: isVisionSource_def list_ex_iff)
    then have "keeps s ls" by (simp add: keeps_def)
    with ls show "aura_uuid au \<in> vs_aura ` set (filter (keeps s) ?f)" by force
  qed
  then show ?thesis by (simp add: settled_iff reconcileSources_filter)
qed

lemma reconcileSources_distinct:
  assumes "distinct (map vs_aura vs)" "distinct (map aura_uuid (auras s))"
  shows "distinct (map vs_aura (reconcileSources s vs))"
  using foldl_auraStep_ids [OF assms, of "uuid s"]
  by (simp add: reconcileSources_filter distinct_map_filter)


subsection \<open>The blocker sets\<close>

lemma checkVisionSources_fst:
  "fst (checkVisionSources r s st) \<longleftrightarrow>
     (visionObstruction s \<longleftrightarrow> uuid s \<notin> set (getBlockers VISION (s_floor s) st))"
  by (auto simp: checkVisionSources_def Let_def indexOf_none indexOf_some split: prod.splits)

lemma checkVisionSources_blockers:
  "getBlockers VISION (s_floor s) (snd (checkVisionSources r s st)) =
     (if visionObstruction s \<and> uuid s \<notin> set (getBlockers VISION (s_floor s) st)
        then getBlockers VISION (s_floor s) st @ [uuid s]
      else if \<not> visionObstruction s \<and> uuid s \<in> set (getBlockers VISION (s_floor s) st)
        then remove1 (uuid s) (getBlockers VISION (s_floor s) st)
      else getBlockers VISION (s_floor s) st)"
  by (auto simp: checkVisionSources_def Let_def indexOf_none indexOf_some splice1_indexOf
      getBlockers_def addBlocker_def sliceBlockers_def setBlockers_def request_def
      setVisionSources_def split: prod.splits)

lemma checkVisionSources_movement:
  "getBlockers MOVEMENT fl (snd (checkVisionSources r s st)) = getBlockers MOVEMENT fl st"
  by (auto simp: checkVisionSources_def Let_def
      getBlockers_def addBlocker_def sliceBlockers_def setBlockers_def request_def
      setVisionSources_def split: prod.splits)

lemma checkVisionSources_sources:
  "getVisionSources (s_floor s) (snd (checkVisionSources r s st)) =
     reconcileSources s (getVisionSources (s_floor s) st)"
  by (auto simp: checkVisionSources_def Let_def
      getBlockers_def addBlocker_def sliceBlockers_def setBlockers_def request_def
      setVisionSources_def getVisionSources_def split: prod.splits)

lemma checkVisionSources_noop:
  assumes "\<not> fst (checkVisionSources r s st)"
    and "reconcileSources s (getVisionSources (s_floor s) st) = getVisionSources (s_floor s) st"
  shows "snd (checkVisionSources r s st) = st"
proof (cases "visionObstruction s")
  case True
  then have "indexOf (getBlockers VISION (s_floor s) st) (uuid s) \<noteq> - 1"
    using assms(1) by (simp add: checkVisionSources_fst indexOf_none)
  then show ?thesis
    using True assms(2)
    by (simp add: checkVisionSources_def Let_def request_def setVisionSources_def
        getVisionSources_def)
next
  case False
  then have "indexOf (getBlockers VISION (s_floor s) st) (uuid s) = - 1"
    using assms(1) by (simp add: checkVisionSources_fst indexOf_none)
  then show ?thesis
    using False assms(2)
    by (simp add: checkVisionSources_def Let_def request_def setVisionSources_def
        getVisionSources_def)
qed

lemma checkVisionSources_preserves:
  assumes "distinct (getBlockers VISION (s_floor s) st)"
    and "distinct (map vs_aura (getVisionSources (s_floor s) st))"
    and "distinct (map aura_uuid (auras s))"
  shows "distinct (getBlockers VISION (s_floor s) (snd (checkVisionSources r s st)))
     \<and> distinct (map vs_aura (getVisionSources (s_floor s) (snd (checkVisionSources r s st))))"
  using assms
  by (simp add: checkVisionSources_blockers checkVisionSources_sources reconcileSources_distinct)

lemma setMovementBlock_fst:
  "fst (setMovementBlock b r (s, st)) \<longleftrightarrow>
     (b \<longleftrightarrow> uuid s \<notin> set (getBlockers MOVEMENT (s_floor s) st))"
  by (auto simp: setMovementBlock_def Let_def indexOf_none indexOf_some split: prod.splits)

lemma setMovementBlock_shape:
  "fst (snd (setMovementBlock b r (s, st))) = s\<lparr>movementObstruction := b\<rparr>"
  by (auto simp: setMovementBlock_def Let_def split: prod.splits)

lemma setMovementBlock_blockers:
  "getBlockers MOVEMENT (s_floor s) (snd (snd (setMovementBlock b r (s, st)))) =
     (if b \<and> uuid s \<notin> set (getBlockers MOVEMENT (s_floor s) st)
        then getBlockers MOVEMENT (s_floor s) st @ [uuid s]
      else if \<not> b \<and> uuid s \<in> set (getBlockers MOVEMENT (s_floor s) st)
        then remove1 (uuid s) (getBlockers MOVEMENT (s_floor s) st)
      else getBlockers MOVEMENT (s_floor s) st)"
  by (auto simp: setMovementBlock_def Let_def indexOf_none indexOf_some splice1_indexOf
      getBlockers_def addBlocker_def sliceBlockers_def setBlockers_def request_def
      split: prod.splits)

lemma setMovementBlock_vision:
  "getBlockers VISION fl (snd (snd (setMovementBlock b r (s, st)))) = getBlockers VISION fl st"
  by (auto simp: setMovementBlock_def Let_def
      getBlockers_def addBlocker_def sliceBlockers_def setBlockers_def request_def
      split: prod.splits)

lemma call_distinct: "blockersDistinct sst \<Longrightarrow> blockersDistinct (snd (call c sst))"
proof (cases sst)
  case (Pair s st)
  assume d: "blockersDistinct sst"
  show ?thesis
  proof (cases c)
    case (SetMovementBlock b r)
    then show ?thesis
      using d Pair
      by (simp add: blockersDistinct_def setMovementBlock_shape setMovementBlock_blockers
          setMovementBlock_vision)
  next
    case (SetVisionObstruction b r)
    let ?s = "s\<lparr>visionObstruction := b\<rparr>"
    have "s_floor ?s = s_floor s" by simp
    then show ?thesis
      using d Pair SetVisionObstruction
        checkVisionSources_blockers [of ?s r st] checkVisionSources_movement [of "s_floor s" r ?s st]
      by (simp add: blockersDistinct_def Let_def)
  next
    case (CheckVisionSources r)
    then show ?thesis
      using d Pair checkVisionSources_blockers [of s r st]
        checkVisionSources_movement [of "s_floor s" r s st]
      by (simp add: blockersDistinct_def Let_def)
  qed
qed

lemma run_distinct: "blockersDistinct sst \<Longrightarrow> blockersDistinct (run cs sst)"
  by (induction cs arbitrary: sst) (simp_all add: call_distinct)

lemma call_floor_uuid:
  "s_floor (fst (snd (call c sst))) = s_floor (fst sst) \<and>
   uuid (fst (snd (call c sst))) = uuid (fst sst)"
  by (cases c; cases sst) (simp_all add: setMovementBlock_shape Let_def)

lemma run_floor_uuid:
  "s_floor (fst (run cs sst)) = s_floor (fst sst) \<and> uuid (fst (run cs sst)) = uuid (fst sst)"
  by (induction cs arbitrary: sst) (simp_all add: call_floor_uuid)

lemma run_snoc: "run (cs @ [c]) sst = snd (call c (run cs sst))"
  by (induction cs arbitrary: sst) simp_all

lemma call_achieves:
  assumes d: "blockersDistinct sst"
  shows "achieves (uuid (fst sst)) (s_floor (fst sst)) c sst (snd (call c sst))"
proof (cases sst)
  case (Pair s st)
  have dv: "distinct (getBlockers VISION (s_floor s) st)"
    and dm: "distinct (getBlockers MOVEMENT (s_floor s) st)"
    using d Pair by (simp_all add: blockersDistinct_def)
  show ?thesis
  proof (cases c)
    case (SetMovementBlock b r)
    then show ?thesis
      using Pair dm
      by (auto simp: setMovementBlock_shape setMovementBlock_blockers setMovementBlock_vision)
  next
    case (SetVisionObstruction b r)
    let ?s = "s\<lparr>visionObstruction := b\<rparr>"
    have "s_floor ?s = s_floor s" "uuid ?s = uuid s" "visionObstruction ?s = b" by simp_all
    then show ?thesis
      using Pair SetVisionObstruction dv checkVisionSources_blockers [of ?s r st]
        checkVisionSources_movement [of "s_floor s" r ?s st]
      by (auto simp: Let_def)
  next
    case (CheckVisionSources r)
    then show ?thesis
      using Pair dv checkVisionSources_blockers [of s r st]
        checkVisionSources_movement [of "s_floor s" r s st]
      by (auto simp: Let_def)
  qed
qed

lemma run_achieves:
  assumes "blockersDistinct sst"
  shows "achieves (uuid (fst sst)) (s_floor (fst sst)) c (run cs sst) (run (cs @ [c]) sst)"
proof -
  have "blockersDistinct (run cs sst)" using assms by (rule run_distinct)
  then have "achieves (uuid (fst (run cs sst))) (s_floor (fst (run cs sst))) c
      (run cs sst) (snd (call c (run cs sst)))"
    by (rule call_achieves)
  then show ?thesis by (simp add: run_floor_uuid run_snoc)
qed

text \<open>
  C2: take a shape and a store in which the blocker ids of the shape's floor are sets
  (no id twice), and any sequence \<open>cs\<close> of calls already made: \<open>setMovementBlock\<close>,
  assignments to \<open>visionObstruction\<close> followed by \<open>checkVisionSources\<close>, and
  \<open>checkVisionSources\<close>. Immediately after a further call \<open>c\<close>, the flag has the value
  the call asked for, the shape's uuid is in the movement (for \<open>setMovementBlock\<close>) or
  vision blocker set of its floor exactly when that flag is true, the other ids of
  the set are as before, and the other target is untouched (\<open>achieves\<close>); the
  blocker ids are sets again, and the shape keeps its uuid and floor. The scenario:
  when the uuid is not among the vision blockers, setting the flag and calling
  \<open>checkVisionSources\<close> returns true and adds the uuid; doing so again returns false,
  and the uuid occurs exactly once.
\<close>

theorem blocker_sets_follow_flags:
  "(blockersDistinct (s, st) \<longrightarrow>
      (\<forall>cs c. achieves (uuid s) (s_floor s) c (run cs (s, st)) (run (cs @ [c]) (s, st)))
      \<and> (\<forall>cs. blockersDistinct (run cs (s, st))
            \<and> uuid (fst (run cs (s, st))) = uuid s
            \<and> s_floor (fst (run cs (s, st))) = s_floor s))
   \<and> (uuid s \<notin> set (getBlockers VISION (s_floor s) st) \<longrightarrow>
      fst (call (SetVisionObstruction True ra) (s, st))
      \<and> uuid s \<in> set (getBlockers VISION (s_floor s)
            (snd (snd (call (SetVisionObstruction True ra) (s, st)))))
      \<and> \<not> fst (call (SetVisionObstruction True rb)
            (snd (call (SetVisionObstruction True ra) (s, st))))
      \<and> count_list (getBlockers VISION (s_floor s)
            (snd (run [SetVisionObstruction True ra, SetVisionObstruction True rb] (s, st))))
          (uuid s) = 1)"
proof (intro conjI impI allI)
  fix cs :: "shape_call list" and c :: shape_call
  assume "blockersDistinct (s, st)"
  then show "achieves (uuid s) (s_floor s) c (run cs (s, st)) (run (cs @ [c]) (s, st))"
    using run_achieves [of "(s, st)" c cs] by simp
next
  fix cs :: "shape_call list"
  assume "blockersDistinct (s, st)"
  then show "blockersDistinct (run cs (s, st))" by (rule run_distinct)
next
  fix cs :: "shape_call list"
  show "uuid (fst (run cs (s, st))) = uuid s" by (simp add: run_floor_uuid)
next
  fix cs :: "shape_call list"
  show "s_floor (fst (run cs (s, st))) = s_floor s" by (simp add: run_floor_uuid)
next
  let ?s = "s\<lparr>visionObstruction := True\<rparr>"
  let ?bs = "getBlockers VISION (s_floor s) st"
  let ?st1 = "snd (checkVisionSources ra ?s st)"
  assume n: "uuid s \<notin> set ?bs"
  have b1: "getBlockers VISION (s_floor s) ?st1 = ?bs @ [uuid s]"
    using n checkVisionSources_blockers [of ?s ra st] by simp
  have b2: "getBlockers VISION (s_floor s) (snd (checkVisionSources rb ?s ?st1)) = ?bs @ [uuid s]"
    using b1 checkVisionSources_blockers [of ?s rb ?st1] by simp
  show "fst (call (SetVisionObstruction True ra) (s, st))"
    using n by (simp add: Let_def checkVisionSources_fst)
  show "uuid s \<in> set (getBlockers VISION (s_floor s)
          (snd (snd (call (SetVisionObstruction True ra) (s, st)))))"
    using b1 by (simp add: Let_def)
  show "\<not> fst (call (SetVisionObstruction True rb)
          (snd (call (SetVisionObstruction True ra) (s, st))))"
    using b1 by (simp add: Let_def checkVisionSources_fst)
  show "count_list (getBlockers VISION (s_floor s)
          (snd (run [SetVisionObstruction True ra, SetVisionObstruction True rb] (s, st))))
        (uuid s) = 1"
    using b2 n by (simp add: Let_def count_list_0_iff)
qed

text \<open>
  On a fresh shape \<open>s1\<close> and an empty store: after the vision flag is set and
  \<open>setMovementBlock(true)\<close> is called, the movement flag is true and \<open>s1\<close> is a movement
  blocker; after \<open>setMovementBlock(false)\<close> the flag is false and \<open>s1\<close> is none.
\<close>

theorem blocker_sets_follow_flags_witness:
  "blockersDistinct (shapeS1, emptyStore)
   \<and> movementObstruction (fst (run [SetVisionObstruction True True, SetMovementBlock True False]
         (shapeS1, emptyStore)))
   \<and> uuid shapeS1 \<in> set (getBlockers MOVEMENT (s_floor shapeS1)
         (snd (run [SetVisionObstruction True True, SetMovementBlock True False]
            (shapeS1, emptyStore))))
   \<and> \<not> movementObstruction (fst (run [SetVisionObstruction True True,
         SetMovementBlock True False, SetMovementBlock False True] (shapeS1, emptyStore)))
   \<and> uuid shapeS1 \<notin> set (getBlockers MOVEMENT (s_floor shapeS1)
         (snd (run [SetVisionObstruction True True, SetMovementBlock True False,
            SetMovementBlock False True] (shapeS1, emptyStore))))
   \<and> uuid shapeS1 \<notin> set (getBlockers VISION (s_floor shapeS1) emptyStore)
   \<and> fst (call (SetVisionObstruction True True) (shapeS1, emptyStore))
   \<and> \<not> fst (call (SetVisionObstruction True True)
            (snd (call (SetVisionObstruction True True) (shapeS1, emptyStore))))
   \<and> count_list (getBlockers VISION (s_floor shapeS1)
       (snd (run [SetVisionObstruction True True, SetVisionObstruction True True]
          (shapeS1, emptyStore)))) (uuid shapeS1) = 1"
proof -
  have d: "blockersDistinct (shapeS1, emptyStore)"
    by (simp add: blockersDistinct_def emptyStore_def getBlockers_def)
  have n: "uuid shapeS1 \<notin> set (getBlockers VISION (s_floor shapeS1) emptyStore)"
    by (simp add: emptyStore_def getBlockers_def)
  note t = blocker_sets_follow_flags [of shapeS1 emptyStore True True]
  from t d have a: "\<forall>cs c. achieves (uuid shapeS1) (s_floor shapeS1) c
      (run cs (shapeS1, emptyStore)) (run (cs @ [c]) (shapeS1, emptyStore))"
    by (rule conjunct1 [THEN mp, THEN conjunct1])
  from a [rule_format, of "SetMovementBlock True False" "[SetVisionObstruction True True]"]
  have m1: "movementObstruction (fst (run [SetVisionObstruction True True,
        SetMovementBlock True False] (shapeS1, emptyStore)))
      \<and> uuid shapeS1 \<in> set (getBlockers MOVEMENT (s_floor shapeS1)
         (snd (run [SetVisionObstruction True True, SetMovementBlock True False]
            (shapeS1, emptyStore))))"
    by (simp only: achieves.simps append.simps simp_thms)
  from a [rule_format, of "SetMovementBlock False True"
      "[SetVisionObstruction True True, SetMovementBlock True False]"]
  have m2: "\<not> movementObstruction (fst (run [SetVisionObstruction True True,
        SetMovementBlock True False, SetMovementBlock False True] (shapeS1, emptyStore)))
      \<and> uuid shapeS1 \<notin> set (getBlockers MOVEMENT (s_floor shapeS1)
         (snd (run [SetVisionObstruction True True, SetMovementBlock True False,
            SetMovementBlock False True] (shapeS1, emptyStore))))"
    by (simp only: achieves.simps append.simps simp_thms)
  from t n have r: "fst (call (SetVisionObstruction True True) (shapeS1, emptyStore))
      \<and> uuid shapeS1 \<in> set (getBlockers VISION (s_floor shapeS1)
            (snd (snd (call (SetVisionObstruction True True) (shapeS1, emptyStore)))))
      \<and> \<not> fst (call (SetVisionObstruction True True)
            (snd (call (SetVisionObstruction True True) (shapeS1, emptyStore))))
      \<and> count_list (getBlockers VISION (s_floor shapeS1)
            (snd (run [SetVisionObstruction True True, SetVisionObstruction True True]
               (shapeS1, emptyStore))))
          (uuid shapeS1) = 1"
    by (rule conjunct2 [THEN mp])
  from d m1 m2 n r show ?thesis by blast
qed

text \<open>
  C3: in a store where, on the shape's floor, no vision blocker id and no aura id of the
  vision-source registry occurs twice, and for a shape whose auras have distinct ids, a
  second call of \<open>checkVisionSources\<close> right after a first returns false and leaves the
  store as it is: blocker sets, vision-source registry and triangulation requests.
\<close>

theorem checkVisionSources_idempotent:
  assumes "distinct (getBlockers VISION (s_floor s) st)"
    and "distinct (map vs_aura (getVisionSources (s_floor s) st))"
    and "distinct (map aura_uuid (auras s))"
  shows "\<not> fst (checkVisionSources r2 s (snd (checkVisionSources r1 s st)))
     \<and> snd (checkVisionSources r2 s (snd (checkVisionSources r1 s st)))
         = snd (checkVisionSources r1 s st)"
proof -
  let ?st1 = "snd (checkVisionSources r1 s st)"
  have m: "uuid s \<in> set (getBlockers VISION (s_floor s) ?st1) \<longleftrightarrow> visionObstruction s"
    using assms(1) by (simp add: checkVisionSources_blockers)
  then have f: "\<not> fst (checkVisionSources r2 s ?st1)"
    by (simp add: checkVisionSources_fst)
  have "settled s (getVisionSources (s_floor s) ?st1)"
    using assms(2,3) by (simp add: checkVisionSources_sources reconcileSources_settles)
  then have "reconcileSources s (getVisionSources (s_floor s) ?st1)
      = getVisionSources (s_floor s) ?st1"
    by (rule reconcileSources_settled)
  with f have "snd (checkVisionSources r2 s ?st1) = ?st1"
    by (rule checkVisionSources_noop)
  with f show ?thesis by simp
qed

theorem checkVisionSources_idempotent_witness:
  "distinct (getBlockers VISION (s_floor (shapeS1\<lparr>visionObstruction := True, auras := [torch]\<rparr>))
      emptyStore)
   \<and> distinct (map vs_aura (getVisionSources
        (s_floor (shapeS1\<lparr>visionObstruction := True, auras := [torch]\<rparr>)) emptyStore))
   \<and> distinct (map aura_uuid (auras (shapeS1\<lparr>visionObstruction := True, auras := [torch]\<rparr>)))
   \<and> fst (checkVisionSources True (shapeS1\<lparr>visionObstruction := True, auras := [torch]\<rparr>)
        emptyStore)
   \<and> \<not> fst (checkVisionSources True (shapeS1\<lparr>visionObstruction := True, auras := [torch]\<rparr>)
        (snd (checkVisionSources True (shapeS1\<lparr>visionObstruction := True, auras := [torch]\<rparr>)
           emptyStore)))
   \<and> snd (checkVisionSources True (shapeS1\<lparr>visionObstruction := True, auras := [torch]\<rparr>)
        (snd (checkVisionSources True (shapeS1\<lparr>visionObstruction := True, auras := [torch]\<rparr>)
           emptyStore)))
      = snd (checkVisionSources True (shapeS1\<lparr>visionObstruction := True, auras := [torch]\<rparr>)
           emptyStore)"
proof -
  let ?s = "shapeS1\<lparr>visionObstruction := True, auras := [torch]\<rparr>"
  have 1: "distinct (getBlockers VISION (s_floor ?s) emptyStore)"
    by (simp add: emptyStore_def getBlockers_def)
  have 2: "distinct (map vs_aura (getVisionSources (s_floor ?s) emptyStore))"
    by (simp add: emptyStore_def getVisionSources_def)
  have 3: "distinct (map aura_uuid (auras ?s))" by simp
  have 4: "fst (checkVisionSources True ?s emptyStore)"
    by (simp add: checkVisionSources_fst emptyStore_def getBlockers_def)
  show ?thesis
    using 1 2 3 4 checkVisionSources_idempotent [OF 1 2 3, of True True] by simp
qed

text \<open>
  C7, as the claim states it, fails: a shape that blocks no vision and carries a
  vision-source aura not yet registered. \<open>checkVisionSources\<close> registers the aura and
  returns false.
\<close>

theorem checkVisionSources_sources_counterexample:
  "\<not> fst (checkVisionSources True (shapeS1\<lparr>auras := [torch]\<rparr>) emptyStore)
   \<and> getVisionSources ''ground'' emptyStore = []
   \<and> getVisionSources ''ground''
        (snd (checkVisionSources True (shapeS1\<lparr>auras := [torch]\<rparr>) emptyStore))
      = [\<lparr>vs_shape = ''s1'', vs_aura = ''a1''\<rparr>]"
  by (simp add: checkVisionSources_def shapeS1_def setLayer_def newShape_def emptyStore_def
      torch_def Let_def indexOf_def getBlockers_def request_def getVisionSources_def
      setVisionSources_def reconcileSources_def auraStep_def isVisionSource_def splice1_def)

text \<open>
  C7, amended: \<open>checkVisionSources\<close> returns true exactly when the call changed the
  vision blockers of the shape's floor; where these are a set (no id twice), exactly
  when the call changed whether the shape's uuid is among them. The return value says
  nothing about the vision-source registrations.
\<close>

theorem checkVisionSources_reports_blockers:
  "(fst (checkVisionSources r s st) \<longleftrightarrow>
      getBlockers VISION (s_floor s) (snd (checkVisionSources r s st))
        \<noteq> getBlockers VISION (s_floor s) st)
   \<and> (distinct (getBlockers VISION (s_floor s) st) \<longrightarrow>
      (fst (checkVisionSources r s st) \<longleftrightarrow>
         (uuid s \<in> set (getBlockers VISION (s_floor s) (snd (checkVisionSources r s st))))
           \<noteq> (uuid s \<in> set (getBlockers VISION (s_floor s) st))))"
proof -
  let ?bs = "getBlockers VISION (s_floor s) st"
  have "remove1 (uuid s) ?bs \<noteq> ?bs" if "uuid s \<in> set ?bs"
    using that length_remove1 [of "uuid s" ?bs]
    by (metis length_pos_if_in_set diff_less zero_less_one less_irrefl)
  then show ?thesis
    by (auto simp: checkVisionSources_fst checkVisionSources_blockers)
qed

theorem checkVisionSources_reports_blockers_witness:
  "distinct (getBlockers VISION (s_floor (shapeS1\<lparr>visionObstruction := True\<rparr>)) emptyStore)
   \<and> fst (checkVisionSources False (shapeS1\<lparr>visionObstruction := True\<rparr>) emptyStore)
   \<and> uuid (shapeS1\<lparr>visionObstruction := True\<rparr>) \<in> set (getBlockers VISION
        (s_floor (shapeS1\<lparr>visionObstruction := True\<rparr>))
        (snd (checkVisionSources False (shapeS1\<lparr>visionObstruction := True\<rparr>) emptyStore)))"
proof -
  let ?s = "shapeS1\<lparr>visionObstruction := True\<rparr>"
  have 1: "distinct (getBlockers VISION (s_floor ?s) emptyStore)"
    by (simp add: emptyStore_def getBlockers_def)
  have 2: "uuid ?s \<notin> set (getBlockers VISION (s_floor ?s) emptyStore)"
    by (simp add: emptyStore_def getBlockers_def)
  have 3: "fst (checkVisionSources False ?s emptyStore)"
    using 2 by (simp add: checkVisionSources_fst)
  show ?thesis
    using 1 2 3 checkVisionSources_reports_blockers [of False ?s emptyStore] by blast
qed

subsection \<open>Group membership\<close>

lemma Map_has_iff: "Map_has k m \<longleftrightarrow> map_of m k \<noteq> None"
  by (auto simp: Map_has_def list_ex_iff map_of_eq_None_iff)

lemma Map_get_OArr: "Map_get k m = OArr ids \<Longrightarrow> Map_has k m"
  by (auto simp: Map_has_iff Map_get_def split: option.splits)

lemma collect_members:
  "foldl (\<lambda>acc u. case registry u of Some m \<Rightarrow> acc @ [m] | None \<Rightarrow> acc) acc ids
     = acc @ List.map_filter registry ids"
  by (induction ids arbitrary: acc) (auto split: option.splits)

lemma map_filter_skip:
  "registry m = None \<Longrightarrow>
   List.map_filter registry (xs @ m # ys) = List.map_filter registry xs @ List.map_filter registry ys"
  by (simp add: List.map_filter_def)

text \<open>
  C8: a shape with neither \<open>groupId\<close> nor \<open>groupInfo\<close> among its options is its own and
  only group member. For a leader (a shape whose \<open>groupInfo\<close> is a list of ids and whose
  \<open>groupId\<close> is absent, null or its own uuid) the result is the leader followed by the
  shapes the registry has for the ids, in order; an id the registry does not know is
  left out, and the call does not fail.
\<close>

theorem getGroupMembers_resolution:
  "(\<not> Map_has ''groupId'' (options s) \<and> \<not> Map_has ''groupInfo'' (options s)
      \<longrightarrow> getGroupMembers registry s = Inr [s])
   \<and> (Map_get ''groupId'' (options s) \<in> {OUndefined, ONull, OStr (uuid s)}
       \<and> Map_get ''groupInfo'' (options s) = OArr ids
      \<longrightarrow> getGroupMembers registry s = Inr (s # List.map_filter registry ids))
   \<and> (Map_get ''groupId'' (options s) \<in> {OUndefined, ONull, OStr (uuid s)}
       \<and> Map_get ''groupInfo'' (options s) = OArr (xs @ missing # ys)
       \<and> registry missing = None
      \<longrightarrow> getGroupMembers registry s
            = Inr (s # List.map_filter registry xs @ List.map_filter registry ys))"
proof -
  have leader: "getGroupMembers registry s = Inr (s # List.map_filter registry js)"
    if g: "Map_get ''groupId'' (options s) \<in> {OUndefined, ONull, OStr (uuid s)}"
      and i: "Map_get ''groupInfo'' (options s) = OArr js" for js
  proof -
    have h: "Map_has ''groupInfo'' (options s)" using i by (rule Map_get_OArr)
    have "(case Map_get ''groupId'' (options s) of
             OUndefined \<Rightarrow> OStr (uuid s) | ONull \<Rightarrow> OStr (uuid s) | v \<Rightarrow> v) = OStr (uuid s)"
      using g by auto
    then show ?thesis
      using h i by (simp add: getGroupMembers_def Let_def collect_members)
  qed
  show ?thesis
    using leader by (auto simp: getGroupMembers_def map_filter_skip)
qed

theorem getGroupMembers_resolution_witness:
  "Map_get ''groupId'' (options leaderS1) \<in> {OUndefined, ONull, OStr (uuid leaderS1)}
   \<and> Map_get ''groupInfo'' (options leaderS1) = OArr ([''m1''] @ ''gone'' # [''m2''])
   \<and> twoMembers ''gone'' = None
   \<and> getGroupMembers twoMembers leaderS1 = Inr [leaderS1, member ''m1'', member ''m2'']
   \<and> getGroupMembers twoMembers shapeS1 = Inr [shapeS1]"
proof -
  have 1: "Map_get ''groupId'' (options leaderS1) \<in> {OUndefined, ONull, OStr (uuid leaderS1)}"
    by (simp add: leaderS1_def Map_get_def)
  have 2: "Map_get ''groupInfo'' (options leaderS1) = OArr ([''m1''] @ ''gone'' # [''m2''])"
    by (simp add: leaderS1_def Map_get_def)
  have 3: "twoMembers ''gone'' = None" by (simp add: twoMembers_def)
  have 4: "\<not> Map_has ''groupId'' (options shapeS1) \<and> \<not> Map_has ''groupInfo'' (options shapeS1)"
    by (simp add: shapeS1_def setLayer_def newShape_def Map_has_def)
  have 5: "List.map_filter twoMembers [''m1''] @ List.map_filter twoMembers [''m2'']
      = [member ''m1'', member ''m2'']"
    by (simp add: twoMembers_def)
  have a: "getGroupMembers twoMembers leaderS1
      = Inr (leaderS1 # List.map_filter twoMembers [''m1''] @ List.map_filter twoMembers [''m2''])"
    using 1 2 3
      getGroupMembers_resolution [of leaderS1 twoMembers "[''m1''] @ ''gone'' # [''m2'']"
        "[''m1'']" "''gone''" "[''m2'']"]
    by blast
  have b: "getGroupMembers twoMembers shapeS1 = Inr [shapeS1]"
    using 4 getGroupMembers_resolution [of shapeS1 twoMembers "[]" "[]" "''gone''" "[]"]
    by blast
  from a have c: "getGroupMembers twoMembers leaderS1 = Inr [leaderS1, member ''m1'', member ''m2'']"
    by (simp only: 5)
  from 1 2 3 c b show ?thesis by blast
qed

subsection \<open>The "remove shape" event\<close>

text \<open>
  C9: when the registry does not know the uuid of a "remove shape" event, the handler
  writes one line to the console and returns; registry, layers and everything else are
  as before, whatever the layer's methods would do, and the handler has no error
  result.
\<close>

theorem remove_unknown_shape_noop:
  assumes "UUIDMap gm (data_uuid d) = None"
  shows "onRemoveShape removeShape invalidate d gm
           = gm\<lparr>console := console gm @ [''Attempted to remove an unknown shape'']\<rparr>
     \<and> UUIDMap (onRemoveShape removeShape invalidate d gm) = UUIDMap gm
     \<and> layers (onRemoveShape removeShape invalidate d gm) = layers gm
     \<and> rest (onRemoveShape removeShape invalidate d gm) = rest gm"
  using assms by (simp add: onRemoveShape_def)

theorem remove_unknown_shape_noop_witness:
  "UUIDMap knownLayer (data_uuid payloadS1) = None
   \<and> layers knownLayer (data_layer payloadS1) = Some ()
   \<and> onRemoveShape (\<lambda>l sh b g. g\<lparr>layers := Map.empty\<rparr>) (\<lambda>l b g. g) payloadS1 knownLayer
       = knownLayer\<lparr>console := [''Attempted to remove an unknown shape'']\<rparr>"
proof -
  have 1: "UUIDMap knownLayer (data_uuid payloadS1) = None"
    by (simp add: knownLayer_def)
  have 2: "layers knownLayer (data_layer payloadS1) = Some ()"
    by (simp add: knownLayer_def payloadS1_def getBaseDict_def shapeS1_def setLayer_def
        newShape_def)
  have 3: "console knownLayer = []" by (simp add: knownLayer_def)
  show ?thesis
    using 1 2 3 remove_unknown_shape_noop [OF 1, of "\<lambda>l sh b g. g\<lparr>layers := Map.empty\<rparr>" "\<lambda>l b g. g"]
    by simp
qed

subsection \<open>The wire format\<close>

lemma updateDefaultOwner_shape:
  "snd (updateDefaultOwner a sync (g, s)) = s\<lparr>defaultAccess := applyRules (edit (defaultAccess s)) a\<rparr>"
  by (simp add: updateDefaultOwner_def Let_def)

lemma fromDictFields_kept:
  "fromDictFields cv layerOn d s = Inr s' \<Longrightarrow>
   owners s' = map (ownerToClient cv) (data_owners d) \<and> defaultAccess s' = defaultAccess s
   \<and> strokeWidth s' = strokeWidth s \<and> shape_type s' = shape_type s \<and> uuid s' = uuid s
   \<and> refPoint s' = refPoint s"
  by (auto simp: fromDictFields_def Let_def split: if_splits sum.splits)

lemma fromDict_unknown_layer:
  "\<not> layerOn (data_floor d) (data_layer d) \<Longrightarrow> fromDict cv layerOn d gs = Inl TypeError"
  by (simp add: fromDict_def fromDictFields_def)

lemma fromDict_cases:
  "(\<exists>e. fromDict cv layerOn d (g, s) = Inl e)
   \<or> (\<exists>g' s'. fromDict cv layerOn d (g, s) = Inr (g', s')
        \<and> owners s' = map (ownerToClient cv) (data_owners d)
        \<and> defaultAccess s' = applyRules (edit (defaultAccess s)) (data_defaultAccess d)
        \<and> strokeWidth s' = strokeWidth s)"
proof (cases "fromDictFields cv layerOn d s")
  case (Inl e)
  then show ?thesis by (simp add: fromDict_def)
next
  case (Inr s4)
  let ?r = "updateDefaultOwner (data_defaultAccess d) False
      (g\<lparr>outbox := outbox g @ [UpdateShapePoints (uuid s4)]\<rparr>, s4)"
  have "fromDict cv layerOn d (g, s) = Inr (fst ?r, snd ?r)"
    using Inr by (simp add: fromDict_def data_defaultAccess_def)
  then show ?thesis
    using fromDictFields_kept [OF Inr] by (simp add: updateDefaultOwner_shape)
qed

lemma fillAccess_rule: "editImpliesAll (fillAccess (forceOnEdit a))"
  by (cases "p_edit a")
     (auto simp: editImpliesAll_def fillAccess_def forceOnEdit_def)

lemma addOwner_owners:
  "u \<in> set (owners (snd (addOwner owner sync (g, s)))) \<Longrightarrow>
   u \<in> set (owners s) \<or> editImpliesAll (access u)"
  by (auto simp: addOwner_def Let_def fillAccess_rule split: if_splits)

lemma addOwner_default: "defaultAccess (snd (addOwner owner sync (g, s))) = defaultAccess s"
  by (simp add: addOwner_def Let_def)

lemma set_setFirstAccess:
  "u \<in> set (setFirstAccess un a os) \<Longrightarrow> u \<in> set os \<or> access u = a"
  by (induction os) (auto split: if_splits)

lemma updateOwner_owners:
  "u \<in> set (owners (snd (updateOwner upd sync (g, s)))) \<Longrightarrow>
   u \<in> set (owners s) \<or> editImpliesAll (access u)"
  by (auto simp: updateOwner_def Let_def applyRules_rule
      split: if_splits option.splits dest!: set_setFirstAccess)

lemma updateOwner_default: "defaultAccess (snd (updateOwner upd sync (g, s))) = defaultAccess s"
  by (simp add: updateOwner_def Let_def split: option.splits)

text \<open>
  C1, as the claim states it, fails for \<open>fromDict\<close>: a payload whose owner list holds a
  grant with edit and neither vision nor movement. \<open>fromDict\<close> stores the grant as the
  conversion (here a copy) gives it.
\<close>

theorem fromDict_owner_counterexample:
  "\<not> isl (fromDict plainConv groundTokens payloadEditOnly (playerStore ''bob'', shapeS1))
   \<and> owners (snd (projr (fromDict plainConv groundTokens payloadEditOnly
          (playerStore ''bob'', shapeS1))))
       = [\<lparr>shape = ''s1'', user = ''alice'',
           access = \<lparr>edit = True, vision = False, movement = False\<rparr>\<rparr>]
   \<and> \<not> list_all (\<lambda>u. editImpliesAll (access u))
        (owners (snd (projr (fromDict plainConv groundTokens payloadEditOnly
          (playerStore ''bob'', shapeS1)))))"
  by (simp add: editImpliesAll_def fromDict_def fromDictFields_def payloadEditOnly_def payloadS1_def
      getBaseDict_def plainConv_def groundTokens_def editOnlyGrant_def Let_def Map_new_def
      updateDefaultOwner_shape shapeS1_def setLayer_def newShape_def)

text \<open>
  C1, amended: after \<open>addOwner\<close> and after \<open>updateOwner\<close> every stored owner grant is
  one that was stored before or satisfies edit implies vision and movement, and the
  default access is untouched; after \<open>updateDefaultOwner\<close>, and after \<open>fromDict\<close>, the
  default access satisfies the rule. \<open>fromDict\<close> stores the owner entries of the payload
  as \<open>ownerToClient\<close> gives them; it applies no rule to them.
\<close>

theorem edit_implies_full_access:
  "(\<forall>u \<in> set (owners (snd (addOwner owner sync (g, s)))).
      u \<in> set (owners s) \<or> editImpliesAll (access u))
   \<and> defaultAccess (snd (addOwner owner sync (g, s))) = defaultAccess s
   \<and> (\<forall>u \<in> set (owners (snd (updateOwner upd sync (g, s)))).
      u \<in> set (owners s) \<or> editImpliesAll (access u))
   \<and> defaultAccess (snd (updateOwner upd sync (g, s))) = defaultAccess s
   \<and> editImpliesAll (defaultAccess (snd (updateDefaultOwner a sync (g, s))))
   \<and> owners (snd (updateDefaultOwner a sync (g, s))) = owners s
   \<and> (\<forall>g' s'. fromDict cv layerOn d (g, sh) = Inr (g', s') \<longrightarrow>
        editImpliesAll (defaultAccess s')
        \<and> owners s' = map (ownerToClient cv) (data_owners d))"
proof -
  have "editImpliesAll (defaultAccess s') \<and> owners s' = map (ownerToClient cv) (data_owners d)"
    if "fromDict cv layerOn d (g, sh) = Inr (g', s')" for g' s'
    using that fromDict_cases [of cv layerOn d g sh] by (auto simp: applyRules_rule)
  then show ?thesis
    using addOwner_owners [of _ owner sync g s] updateOwner_owners [of _ upd sync g s]
    by (simp add: addOwner_default updateOwner_default updateDefaultOwner_shape applyRules_rule)
qed

theorem edit_implies_full_access_witness:
  "owners (snd (addOwner aliceEdit False (playerStore ''alice'', bareShape ''s1'')))
     = [\<lparr>shape = ''s1'', user = ''alice'',
         access = \<lparr>edit = True, vision = True, movement = True\<rparr>\<rparr>]
   \<and> editImpliesAll \<lparr>edit = True, vision = True, movement = True\<rparr>
   \<and> defaultAccess (snd (updateDefaultOwner \<lparr>edit = True, vision = False, movement = False\<rparr>
        True (playerStore ''alice'', bareShape ''s1'')))
     = \<lparr>edit = True, vision = True, movement = True\<rparr>"
proof -
  note t = edit_implies_full_access [where owner = aliceEdit and sync = False
      and g = "playerStore ''alice''" and s = "bareShape ''s1''"]
  have 1: "owners (snd (addOwner aliceEdit False (playerStore ''alice'', bareShape ''s1'')))
     = [\<lparr>shape = ''s1'', user = ''alice'',
         access = \<lparr>edit = True, vision = True, movement = True\<rparr>\<rparr>]"
    by (simp add: addOwner_def aliceEdit_def bareShape_def playerStore_def Let_def hasOwner_def
        forceOnEdit_def fillAccess_def)
  have "\<forall>u \<in> set (owners (snd (addOwner aliceEdit False
        (playerStore ''alice'', bareShape ''s1'')))).
      u \<in> set (owners (bareShape ''s1'')) \<or> editImpliesAll (access u)"
    using t by (rule conjunct1)
  then have 2: "editImpliesAll \<lparr>edit = True, vision = True, movement = True\<rparr>"
    unfolding 1 by (simp add: bareShape_def)
  have 3: "defaultAccess (snd (updateDefaultOwner \<lparr>edit = True, vision = False, movement = False\<rparr>
        True (playerStore ''alice'', bareShape ''s1'')))
     = \<lparr>edit = True, vision = True, movement = True\<rparr>"
    by (simp add: updateDefaultOwner_shape applyRules_def bareShape_def someFalse_def)
  from 1 2 3 show ?thesis by blast
qed

text \<open>
  \<open>fromDict\<close> does not read \<open>stroke_width\<close>: the shape keeps the stroke width it had,
  while \<open>getBaseDict\<close> writes the field.
\<close>

lemma fromDict_keeps_strokeWidth:
  "fromDict cv layerOn d (g, s) = Inr (g', s') \<Longrightarrow> strokeWidth s' = strokeWidth s"
  using fromDict_cases [of cv layerOn d g s] by auto

text \<open>
  C4, as the claim states it, fails: a payload with an empty name, deserialised into a
  shape constructed for it, is written back with the name of a fresh shape.
\<close>

theorem round_trip_name_counterexample:
  "data_name payloadNoName = []
   \<and> \<not> isl (fromDict plainConv groundTokens payloadNoName
          (playerStore ''bob'', shapeFor payloadNoName))
   \<and> data_name (getBaseDict plainConv
        (snd (projr (fromDict plainConv groundTokens payloadNoName
           (playerStore ''bob'', shapeFor payloadNoName))))) = ''Unknown shape''"
  by (simp add: fromDict_def fromDictFields_def payloadNoName_def payloadS1_def
      getBaseDict_def plainConv_def groundTokens_def shapeFor_def Let_def Map_new_def
      updateDefaultOwner_shape shapeS1_def setLayer_def newShape_def)

text \<open>
  C4, amended: let a payload name a floor and a layer that the layer manager resolves,
  and have a non-empty name, an annotation (non-empty unless the shape's is empty),
  options that are present and non-empty, auras, owners and options that the wire
  conversions and the JSON codec reproduce, and a default access triple with edit
  implies vision and movement. Deserialised by \<open>fromDict\<close> into a shape constructed
  with the payload's type, uuid, x and y, and serialised again by \<open>getBaseDict\<close>, it
  comes back with every field as it was, \<open>stroke_width\<close> left aside: the two payloads
  are equal once their \<open>stroke_width\<close> is set to the same value. For a floor or layer
  the layer manager does not resolve, \<open>fromDict\<close> fails (\<open>fromDict_unknown_layer\<close>).
\<close>

theorem wire_round_trip:
  assumes "shape_type s = data_type d" "uuid s = data_uuid d" "refPoint s = (data_x d, data_y d)"
    and "layerOn (data_floor d) (data_layer d)"
    and "data_name d \<noteq> []"
    and "data_annotation d = Some a" "a \<noteq> [] \<or> annotation s = []"
    and "reproduces cv d"
    and "editImpliesAll (data_defaultAccess d)"
  shows "\<exists>g' s'. fromDict cv layerOn d (g, s) = Inr (g', s')
           \<and> (getBaseDict cv s')\<lparr>data_stroke_width := w\<rparr> = d\<lparr>data_stroke_width := w\<rparr>"
proof -
  from assms(8) obtain t entries where
    o: "data_options d = Some t" "t \<noteq> []" "JSON_parse cv t = Inr entries"
      "JSON_stringify cv (Map_new entries) = t"
    and au: "aurasToServer cv (aurasFromServer cv (data_auras d)) = data_auras d"
    and ow: "map (\<lambda>u. ownerToServer cv (ownerToClient cv u)) (data_owners d) = data_owners d"
    by (auto simp: reproduces_def split: option.splits sum.splits)
  have acc: "applyRules b (data_defaultAccess d) = data_defaultAccess d" for b
    using assms(9) by (rule applyRules_id)
  obtain s4 where s4: "fromDictFields cv layerOn d s = Inr s4"
    using o assms(4) by (simp add: fromDictFields_def Let_def)
  let ?r = "updateDefaultOwner (data_defaultAccess d) False
      (g\<lparr>outbox := outbox g @ [UpdateShapePoints (uuid s4)]\<rparr>, s4)"
  have f: "fromDict cv layerOn d (g, s) = Inr (fst ?r, snd ?r)"
    using s4 by (simp add: fromDict_def data_defaultAccess_def)
  have ow': "map (ownerToServer cv \<circ> ownerToClient cv) (data_owners d) = data_owners d"
    using ow by (simp add: comp_def)
  have "(getBaseDict cv (s4\<lparr>defaultAccess := data_defaultAccess d\<rparr>))\<lparr>data_stroke_width := w\<rparr>
      = d\<lparr>data_stroke_width := w\<rparr>"
    using s4 assms(1-7) o au ow'
    by (cases d)
       (auto simp: fromDictFields_def Let_def getBaseDict_def data_defaultAccess_def
        split: if_splits)
  then have "(getBaseDict cv (snd ?r))\<lparr>data_stroke_width := w\<rparr> = d\<lparr>data_stroke_width := w\<rparr>"
    by (simp add: updateDefaultOwner_shape acc)
  with f show ?thesis by blast
qed

text \<open>
  A payload with an angle, an aura, an owner, a name, an annotation, three options (a
  string, a number and a boolean) and a stroke width of 3, on a floor and layer the
  layer manager knows: everything comes back but the stroke width, which is 5, that
  of the fresh shape.
\<close>

theorem wire_round_trip_witness:
  "shape_type (shapeFor payloadGoblin) = data_type payloadGoblin
   \<and> uuid (shapeFor payloadGoblin) = data_uuid payloadGoblin
   \<and> refPoint (shapeFor payloadGoblin) = (data_x payloadGoblin, data_y payloadGoblin)
   \<and> groundTokens (data_floor payloadGoblin) (data_layer payloadGoblin)
   \<and> data_name payloadGoblin \<noteq> []
   \<and> data_annotation payloadGoblin = Some ''chief''
   \<and> data_options payloadGoblin = Some groupOptionsText
   \<and> reproduces plainConv payloadGoblin
   \<and> editImpliesAll (data_defaultAccess payloadGoblin)
   \<and> data_stroke_width payloadGoblin = 3
   \<and> map_sum id (\<lambda>r. getBaseDict plainConv (snd r))
         (fromDict plainConv groundTokens payloadGoblin
            (playerStore ''bob'', shapeFor payloadGoblin))
       = Inr (payloadGoblin\<lparr>data_stroke_width := 5\<rparr>)"
proof -
  let ?d = payloadGoblin
  let ?s = "shapeFor payloadGoblin"
  have 1: "shape_type ?s = data_type ?d" "uuid ?s = data_uuid ?d"
    "refPoint ?s = (data_x ?d, data_y ?d)"
    by (simp_all add: shapeFor_def newShape_def payloadGoblin_def payloadS1_def getBaseDict_def
        shapeS1_def setLayer_def)
  have l: "groundTokens (data_floor ?d) (data_layer ?d)"
    by (simp add: groundTokens_def payloadGoblin_def payloadS1_def getBaseDict_def
        shapeS1_def setLayer_def newShape_def)
  have 2: "data_name ?d \<noteq> []" "data_annotation ?d = Some ''chief''"
    "data_stroke_width ?d = 3" "data_options ?d = Some groupOptionsText"
    by (simp_all add: payloadGoblin_def)
  have m: "Map_new groupOptions = groupOptions"
    by (simp add: Map_new_def groupOptions_def)
  have 3: "reproduces plainConv ?d"
    by (simp add: reproduces_def payloadGoblin_def payloadS1_def getBaseDict_def plainConv_def m)
       (simp add: groupOptionsText_def groupOptions_def quoted_def)
  have 4: "editImpliesAll (data_defaultAccess ?d)"
    by (simp add: editImpliesAll_def data_defaultAccess_def payloadGoblin_def payloadS1_def
        getBaseDict_def shapeS1_def setLayer_def newShape_def)
  have 5: "''chief'' \<noteq> [] \<or> annotation ?s = []" by simp
  from wire_round_trip [where layerOn = groundTokens and cv = plainConv and d = payloadGoblin
      and s = "shapeFor payloadGoblin" and a = "''chief''" and g = "playerStore ''bob''"
      and w = 5, OF 1 l 2(1,2) 5 3 4]
  obtain g' s' where r: "fromDict plainConv groundTokens ?d (playerStore ''bob'', ?s) = Inr (g', s')"
    and e: "(getBaseDict plainConv s')\<lparr>data_stroke_width := 5\<rparr> = ?d\<lparr>data_stroke_width := 5\<rparr>"
    by blast
  have "strokeWidth s' = 5"
    using fromDict_keeps_strokeWidth [OF r] by (simp add: shapeFor_def newShape_def)
  then have "data_stroke_width (getBaseDict plainConv s') = 5"
    by (simp add: getBaseDict_def)
  then have "(getBaseDict plainConv s')\<lparr>data_stroke_width := 5\<rparr> = getBaseDict plainConv s'"
    by (cases "getBaseDict plainConv s'") simp
  with e have "getBaseDict plainConv s' = ?d\<lparr>data_stroke_width := 5\<rparr>" by simp
  with r have "map_sum id (\<lambda>r. getBaseDict plainConv (snd r))
         (fromDict plainConv groundTokens ?d (playerStore ''bob'', ?s))
       = Inr (?d\<lparr>data_stroke_width := 5\<rparr>)"
    by simp
  with 1 l 2 3 4 show ?thesis by blast
qed

end
